theory Spec2Isabelle
  imports Complex_Main "HOL-Library.AList" "HOL-Library.Char_ord" "HOL-Library.List_Lexorder"
begin

section \<open>JSON values as Python sees them\<close>

text \<open>
  A detection is a Python dict decoded from JSON, so its values are the JSON value kinds.
  Numbers (Python int and float) are exact reals; NaN and the infinities are not
  represented. A JSON object is an association list with distinct keys.
\<close>

datatype pyval =
    PNone
  | PBool bool
  | PNum real
  | PStr string
  | PList "pyval list"
  | PDict "(string \<times> pyval) list"

text \<open>Truth value of an object, as tested by \<^verbatim>\<open>if x\<close>, \<^verbatim>\<open>not x\<close> and \<^verbatim>\<open>x and y\<close>.\<close>

fun truthy :: "pyval \<Rightarrow> bool" where
  "truthy PNone = False"
| "truthy (PBool b) = b"
| "truthy (PNum r) = (r \<noteq> 0)"
| "truthy (PStr s) = (s \<noteq> [])"
| "truthy (PList xs) = (xs \<noteq> [])"
| "truthy (PDict kvs) = (kvs \<noteq> [])"

text \<open>The test \<^verbatim>\<open>x != 0\<close>: only a number equal to zero and \<^verbatim>\<open>False\<close> compare equal to 0.\<close>

fun ne_zero :: "pyval \<Rightarrow> bool" where
  "ne_zero (PNum r) = (r \<noteq> 0)"
| "ne_zero (PBool b) = b"
| "ne_zero _ = True"

text \<open>
  Dictionary keys. Hashing a list or a dict raises TypeError (\<open>None\<close> here); \<^verbatim>\<open>True\<close>
  and \<^verbatim>\<open>False\<close> are the keys 1 and 0.
\<close>

datatype pykey = KNone | KNum real | KStr string

fun key_of :: "pyval \<Rightarrow> pykey option" where
  "key_of PNone = Some KNone"
| "key_of (PBool b) = Some (KNum (if b then 1 else 0))"
| "key_of (PNum r) = Some (KNum r)"
| "key_of (PStr s) = Some (KStr s)"
| "key_of (PList xs) = None"
| "key_of (PDict kvs) = None"

definition hashable :: "pyval \<Rightarrow> bool" where
  "hashable v = (key_of v \<noteq> None)"

text \<open>The exceptions that escape from the functions modelled here.\<close>

datatype error = TypeError | KeyError | ValueError | OverflowError | OSError

type_synonym detection = "string \<rightharpoonup> pyval"

text \<open>\<^verbatim>\<open>d.get(k)\<close> and \<^verbatim>\<open>d.get(k, default)\<close>.\<close>

definition dict_get_default :: "detection \<Rightarrow> string \<Rightarrow> pyval \<Rightarrow> pyval" where
  "dict_get_default d k dflt = (case d k of None \<Rightarrow> dflt | Some v \<Rightarrow> v)"

definition dict_get :: "detection \<Rightarrow> string \<Rightarrow> pyval" where
  "dict_get d k = dict_get_default d k PNone"

section \<open>Global state and side effects\<close>

datatype csv_file = SessionCsv | CumulativeCsv
datatype kml_file = SessionKml | CumulativeKml

text \<open>
  A row as the CSV writers are given it, column by column. The timestamp is
  \<^verbatim>\<open>datetime.now()\<close>, counted in microseconds; it is written with \<^verbatim>\<open>isoformat()\<close> and
  read back with \<^verbatim>\<open>fromisoformat\<close>, which returns the same \<^verbatim>\<open>datetime\<close>.
\<close>

record csv_row =
  col_timestamp :: int
  col_alias :: pyval
  col_mac :: pyval
  col_rssi :: pyval
  col_drone_lat :: pyval
  col_drone_long :: pyval
  col_drone_altitude :: pyval
  col_pilot_lat :: pyval
  col_pilot_long :: pyval
  col_basic_id :: pyval
  col_faa_data :: pyval

text \<open>
  The three module globals \<^verbatim>\<open>tracked_pairs\<close>, \<^verbatim>\<open>detection_history\<close> and
  \<^verbatim>\<open>FAA_CACHE\<close> are Python dicts and a list; the dicts are association lists in
  insertion order, which is the order their loops see. The file
  \<^verbatim>\<open>cumulative_detections.csv\<close> is read back by \<^verbatim>\<open>generate_cumulative_kml\<close>, so its
  rows are part of the state; they are rows this program wrote, in this or an earlier
  session. Everything else \<^verbatim>\<open>update_detection\<close> does outside the globals is logged in
  order: the webhook post with its timeout in seconds, the \<^verbatim>\<open>logging.error\<close> call of the
  webhook's exception handler, each row appended to a CSV file, each row appended to the
  cache file, each KML file written. Opening, reading and writing a file succeed in this
  model. The \<^verbatim>\<open>print\<close> calls are left out.
\<close>

datatype effect =
    WebhookPost pyval detection nat
  | LogError
  | CsvAppend csv_file csv_row
  | CacheFileAppend pyval pyval pyval
  | KmlRegen kml_file

record state =
  tracked_pairs :: "(pykey \<times> detection) list"
  detection_history :: "detection list"
  FAA_CACHE :: "((pykey \<times> pykey) \<times> pyval) list"
  cumulative_csv :: "csv_row list"
  effects :: "effect list"

text \<open>
  What the model takes from the Python runtime as it is, without looking inside: the
  difference of two numbers as \<^verbatim>\<open>-\<close> computes it (for two floats, the rounded
  difference), \<^verbatim>\<open>timedelta.total_seconds()\<close> of a difference given in microseconds, the
  exception \<^verbatim>\<open>datetime.fromtimestamp\<close> raises on a number outside the platform's range
  (if any), the text \<^verbatim>\<open>str()\<close> gives a number, boolean, list or dict, and the number
  \<^verbatim>\<open>float()\<close> reads from a text (none when it raises ValueError).
\<close>

record python =
  float_sub :: "real \<Rightarrow> real \<Rightarrow> real"
  total_seconds :: "int \<Rightarrow> real"
  fromtimestamp_error :: "real \<Rightarrow> error option"
  py_str :: "pyval \<Rightarrow> string"
  py_float :: "string \<Rightarrow> real option"

text \<open>
  What \<^verbatim>\<open>requests.post\<close> does with the webhook: it returns, it raises, or it has not come
  back. The timeout of 5 seconds bounds the wait for the connection and for each read, not
  the call.
\<close>

datatype post_result = PostReturns | PostRaises | PostPending

text \<open>
  What one call of \<^verbatim>\<open>update_detection\<close> reads from its environment: the module globals
  \<^verbatim>\<open>WEBHOOK_URL\<close> and \<^verbatim>\<open>ALIASES\<close>, the clock (\<^verbatim>\<open>time.time()\<close>; \<^verbatim>\<open>datetime.now()\<close>
  at its first and second call, for the session row and the cumulative row), what becomes
  of the webhook post, and the runtime.
\<close>

record env =
  WEBHOOK_URL :: pyval
  ALIASES :: "pykey \<rightharpoonup> pyval"
  time_time :: real
  datetime_now :: "nat \<Rightarrow> int"
  post_result :: post_result
  python :: python

definition emit :: "effect list \<Rightarrow> state \<Rightarrow> state" where
  "emit es s = s\<lparr>effects := effects s @ es\<rparr>"

text \<open>
  \<^verbatim>\<open>write_to_faa_cache\<close>: the dict assignment hashes the key tuple and so raises on an
  unhashable component; the file append sits in a try block of its own.
\<close>

definition write_to_faa_cache :: "pyval \<Rightarrow> pyval \<Rightarrow> pyval \<Rightarrow> state \<Rightarrow> error + state" where
  "write_to_faa_cache mac remote_id faa_data s =
     (case (key_of mac, key_of remote_id) of
        (Some km, Some kr) \<Rightarrow>
          Inr (emit [CacheFileAppend mac remote_id faa_data]
                 (s\<lparr>FAA_CACHE := AList.update (km, kr) faa_data (FAA_CACHE s)\<rparr>))
      | _ \<Rightarrow> Inl TypeError)"

text \<open>
  The row both CSV writers are given; \<open>n\<close> says which call of \<^verbatim>\<open>datetime.now()\<close> stamps
  it.
\<close>

definition make_row :: "env \<Rightarrow> nat \<Rightarrow> pykey \<Rightarrow> pyval \<Rightarrow> detection \<Rightarrow> pyval \<Rightarrow> pyval \<Rightarrow> csv_row" where
  "make_row e n k mac d lat lon =
     \<lparr>col_timestamp = datetime_now e n,
      col_alias = (case ALIASES e k of None \<Rightarrow> PStr '''' | Some a \<Rightarrow> a),
      col_mac = mac,
      col_rssi = dict_get_default d ''rssi'' (PStr ''''),
      col_drone_lat = lat,
      col_drone_long = lon,
      col_drone_altitude = dict_get_default d ''drone_altitude'' (PStr ''''),
      col_pilot_lat = dict_get_default d ''pilot_lat'' (PStr ''''),
      col_pilot_long = dict_get_default d ''pilot_long'' (PStr ''''),
      col_basic_id = dict_get_default d ''basic_id'' (PStr ''''),
      col_faa_data = dict_get_default d ''faa_data'' (PDict [])\<rparr>"

text \<open>The two \<^verbatim>\<open>writerow\<close> blocks: a row to the session CSV, then one to the cumulative CSV.\<close>

definition append_rows :: "env \<Rightarrow> pykey \<Rightarrow> pyval \<Rightarrow> detection \<Rightarrow> pyval \<Rightarrow> pyval \<Rightarrow> state \<Rightarrow> state" where
  "append_rows e k mac d lat lon s =
     emit [CsvAppend SessionCsv (make_row e 0 k mac d lat lon),
           CsvAppend CumulativeCsv (make_row e 1 k mac d lat lon)]
       (s\<lparr>cumulative_csv := cumulative_csv s @ [make_row e 1 k mac d lat lon]\<rparr>)"

section \<open>generate_kml\<close>

definition staleThreshold :: real where
  "staleThreshold = 60"

text \<open>Numbers for arithmetic and comparison: Python's \<^verbatim>\<open>bool\<close> is an \<^verbatim>\<open>int\<close>.\<close>

fun num_of :: "pyval \<Rightarrow> real option" where
  "num_of (PNum r) = Some r"
| "num_of (PBool b) = Some (if b then 1 else 0)"
| "num_of _ = None"

text \<open>
  \<^verbatim>\<open>{d['mac'] for d in detection_history}\<close>: the subscript raises KeyError on a record
  without the key, the set hashes each mac.
\<close>

fun collect_macs :: "detection list \<Rightarrow> pykey list \<Rightarrow> error + pykey list" where
  "collect_macs [] acc = Inr acc"
| "collect_macs (d # rest) acc =
     (case d ''mac'' of
        None \<Rightarrow> Inl KeyError
      | Some m \<Rightarrow>
          (case key_of m of
             None \<Rightarrow> Inl TypeError
           | Some k \<Rightarrow> collect_macs rest (List.insert k acc)))"

text \<open>
  \<^verbatim>\<open>sorted\<close> on the set of macs. Strings are ordered among themselves (by code point,
  which is the order of their bytes) and numbers among themselves; with two or more
  elements, a string beside a number, or \<^verbatim>\<open>None\<close> beside anything, raises TypeError at
  the first comparison that meets them.
\<close>

fun key_text :: "pykey \<Rightarrow> string option" where
  "key_text (KStr s) = Some s"
| "key_text _ = None"

fun key_number :: "pykey \<Rightarrow> real option" where
  "key_number (KNum r) = Some r"
| "key_number _ = None"

definition sorted_keys :: "pykey list \<Rightarrow> error + pykey list" where
  "sorted_keys ks =
     (if length ks \<le> 1 then Inr ks
      else if list_all (\<lambda>k. key_text k \<noteq> None) ks
      then Inr (map KStr (sort (List.map_filter key_text ks)))
      else if list_all (\<lambda>k. key_number k \<noteq> None) ks
      then Inr (map KNum (sort (List.map_filter key_number ks)))
      else Inl TypeError)"

text \<open>
  The condition \<^verbatim>\<open>last_ts and (ts - last_ts) > staleThreshold\<close>: the subtraction is
  evaluated only for a truthy \<^verbatim>\<open>last_ts\<close>, and raises TypeError unless both operands are
  numbers.
\<close>

definition gap_exceeds :: "python \<Rightarrow> pyval \<Rightarrow> pyval \<Rightarrow> error + bool" where
  "gap_exceeds py ts last_ts =
     (if \<not> truthy last_ts then Inr False
      else (case (num_of ts, num_of last_ts) of
              (Some a, Some b) \<Rightarrow> Inr (float_sub py a b > staleThreshold)
            | _ \<Rightarrow> Inl TypeError))"

text \<open>
  The list comprehension for \<^verbatim>\<open>pilot_pts\<close>, over the whole history. Its filter is an
  \<^verbatim>\<open>and\<close> chain, so \<^verbatim>\<open>last_update\<close> is compared only on a record of this mac with truthy
  pilot coordinates, and with \<^verbatim>\<open>end_ts\<close> only when it is not below the start. The start
  is a number here (it went through \<^verbatim>\<open>fromtimestamp\<close>), and comparing a number with
  anything that is not a number raises TypeError.
\<close>

fun pilot_pts :: "pykey \<Rightarrow> real \<Rightarrow> pyval \<Rightarrow> detection list \<Rightarrow> error + (pyval \<times> pyval) list" where
  "pilot_pts mac start_ts end_ts [] = Inr []"
| "pilot_pts mac start_ts end_ts (d # rest) =
     (if key_of (dict_get d ''mac'') = Some mac \<and> truthy (dict_get d ''pilot_lat'') \<and>
         truthy (dict_get d ''pilot_long'')
      then (case num_of (dict_get d ''last_update'') of
              None \<Rightarrow> Inl TypeError
            | Some t \<Rightarrow>
                if t \<ge> start_ts
                then (case num_of end_ts of
                        None \<Rightarrow> Inl TypeError
                      | Some en \<Rightarrow>
                          if t \<le> en
                          then (case pilot_pts mac start_ts end_ts rest of
                                  Inl err \<Rightarrow> Inl err
                                | Inr pts \<Rightarrow>
                                    Inr ((dict_get d ''pilot_long'', dict_get d ''pilot_lat'') # pts))
                          else pilot_pts mac start_ts end_ts rest)
                else pilot_pts mac start_ts end_ts rest)
      else pilot_pts mac start_ts end_ts rest)"

text \<open>
  A flushed flight is a folder: its index, its points (triples lon, lat, ts) and the pilot
  points of its time window. Writing the folder calls \<^verbatim>\<open>datetime.fromtimestamp\<close> on the
  first timestamp, which raises TypeError on anything but a number, and then builds
  \<^verbatim>\<open>pilot_pts\<close>. The two flush blocks of \<^verbatim>\<open>generate_kml\<close>, in the loop and after it, do
  the same. The text of the folder (names, colours, alias, coordinate strings) is left out;
  formatting raises nothing.
\<close>

type_synonym kml_point = "pyval \<times> pyval \<times> pyval"

type_synonym folder = "nat \<times> kml_point list \<times> (pyval \<times> pyval) list"

definition render_flight :: "python \<Rightarrow> pykey \<Rightarrow> detection list \<Rightarrow> nat \<Rightarrow> kml_point list \<Rightarrow> error + folder" where
  "render_flight py mac history flight_idx current_flight =
     (let start_ts = snd (snd (hd current_flight));
          end_ts = snd (snd (last current_flight))
      in case num_of start_ts of
           None \<Rightarrow> Inl TypeError
         | Some t \<Rightarrow>
             (case fromtimestamp_error py t of
                Some err \<Rightarrow> Inl err
              | None \<Rightarrow>
                  (case pilot_pts mac t end_ts history of
                     Inl err \<Rightarrow> Inl err
                   | Inr pts \<Rightarrow> Inr (flight_idx, current_flight, pts))))"

text \<open>
  The per-mac loop over \<^verbatim>\<open>detection_history\<close>. The state is \<^verbatim>\<open>flight_idx\<close>,
  \<^verbatim>\<open>last_ts\<close>, \<^verbatim>\<open>current_flight\<close> and the folders written so far.
\<close>

type_synonym seg_state = "nat \<times> pyval \<times> kml_point list \<times> folder list"

fun flights_loop :: "python \<Rightarrow> pykey \<Rightarrow> detection list \<Rightarrow> detection list \<Rightarrow> seg_state \<Rightarrow> error + seg_state" where
  "flights_loop py mac history [] st = Inr st"
| "flights_loop py mac history (det # rest) (flight_idx, last_ts, current_flight, folders) =
     (if key_of (dict_get det ''mac'') \<noteq> Some mac
      then flights_loop py mac history rest (flight_idx, last_ts, current_flight, folders)
      else
        (let lat = dict_get det ''drone_lat''; lon = dict_get det ''drone_long'';
             ts = dict_get det ''last_update''
         in if truthy lat \<and> truthy lon
            then (case gap_exceeds py ts last_ts of
                    Inl err \<Rightarrow> Inl err
                  | Inr True \<Rightarrow>
                      if length current_flight \<ge> 1
                      then (case render_flight py mac history flight_idx current_flight of
                              Inl err \<Rightarrow> Inl err
                            | Inr f \<Rightarrow>
                                flights_loop py mac history rest
                                  (flight_idx + 1, ts, [(lon, lat, ts)], folders @ [f]))
                      else flights_loop py mac history rest
                             (flight_idx, ts, [(lon, lat, ts)], folders)
                  | Inr False \<Rightarrow>
                      flights_loop py mac history rest
                        (flight_idx, ts, current_flight @ [(lon, lat, ts)], folders))
            else flights_loop py mac history rest
                   (flight_idx, last_ts, current_flight, folders)))"

definition final_flush :: "python \<Rightarrow> pykey \<Rightarrow> detection list \<Rightarrow> seg_state \<Rightarrow> error + folder list" where
  "final_flush py mac history st =
     (case st of (flight_idx, last_ts, current_flight, folders) \<Rightarrow>
        if current_flight \<noteq> []
        then (case render_flight py mac history flight_idx current_flight of
                Inl err \<Rightarrow> Inl err
              | Inr f \<Rightarrow> Inr (folders @ [f]))
        else Inr folders)"

definition mac_folders :: "python \<Rightarrow> pykey \<Rightarrow> detection list \<Rightarrow> error + folder list" where
  "mac_folders py mac history =
     (case flights_loop py mac history history (1, PNone, [], []) of
        Inl err \<Rightarrow> Inl err
      | Inr st \<Rightarrow> final_flush py mac history st)"

text \<open>The loop \<^verbatim>\<open>for mac in macs\<close>, and the function: the folders of each mac, in order.\<close>

fun macs_loop :: "python \<Rightarrow> pykey list \<Rightarrow> detection list \<Rightarrow> error + (pykey \<times> folder list) list" where
  "macs_loop py [] history = Inr []"
| "macs_loop py (mac # macs) history =
     (case mac_folders py mac history of
        Inl err \<Rightarrow> Inl err
      | Inr fs \<Rightarrow>
          (case macs_loop py macs history of
             Inl err \<Rightarrow> Inl err
           | Inr doc \<Rightarrow> Inr ((mac, fs) # doc)))"

definition generate_kml :: "python \<Rightarrow> detection list \<Rightarrow> error + (pykey \<times> folder list) list" where
  "generate_kml py history =
     (case collect_macs history [] of
        Inl err \<Rightarrow> Inl err
      | Inr ks \<Rightarrow>
          (case sorted_keys ks of
             Inl err \<Rightarrow> Inl err
           | Inr macs \<Rightarrow> macs_loop py macs history))"

section \<open>generate_cumulative_kml\<close>

text \<open>
  A cell read back from the cumulative CSV is the text the writer gave the value: nothing
  for \<^verbatim>\<open>None\<close>, a string as it is, \<^verbatim>\<open>str()\<close> of anything else. The four coordinate
  columns go through \<^verbatim>\<open>float(cell) if cell else 0.0\<close>, where \<^verbatim>\<open>float\<close> raises ValueError
  on a text that is no number.
\<close>

definition cell_text :: "python \<Rightarrow> pyval \<Rightarrow> string" where
  "cell_text py v = (case v of PNone \<Rightarrow> [] | PStr s \<Rightarrow> s | _ \<Rightarrow> py_str py v)"

definition read_float :: "python \<Rightarrow> pyval \<Rightarrow> error + real" where
  "read_float py v =
     (if cell_text py v = [] then Inr 0
      else (case py_float py (cell_text py v) of
              None \<Rightarrow> Inl ValueError
            | Some r \<Rightarrow> Inr r))"

text \<open>A row after the conversions: the mac as text, four floats, a \<^verbatim>\<open>datetime\<close>.\<close>

record csv_record =
  row_mac :: string
  row_drone_lat :: real
  row_drone_long :: real
  row_pilot_lat :: real
  row_pilot_long :: real
  row_last_update :: int

definition read_row :: "python \<Rightarrow> csv_row \<Rightarrow> error + csv_record" where
  "read_row py r =
     (case read_float py (col_drone_lat r) of
        Inl err \<Rightarrow> Inl err
      | Inr lat \<Rightarrow>
          (case read_float py (col_drone_long r) of
             Inl err \<Rightarrow> Inl err
           | Inr lon \<Rightarrow>
               (case read_float py (col_pilot_lat r) of
                  Inl err \<Rightarrow> Inl err
                | Inr plat \<Rightarrow>
                    (case read_float py (col_pilot_long r) of
                       Inl err \<Rightarrow> Inl err
                     | Inr plon \<Rightarrow>
                         Inr \<lparr>row_mac = cell_text py (col_mac r), row_drone_lat = lat,
                              row_drone_long = lon, row_pilot_lat = plat, row_pilot_long = plon,
                              row_last_update = col_timestamp r\<rparr>))))"

fun read_rows :: "python \<Rightarrow> csv_row list \<Rightarrow> error + csv_record list" where
  "read_rows py [] = Inr []"
| "read_rows py (r # rest) =
     (case read_row py r of
        Inl err \<Rightarrow> Inl err
      | Inr det \<Rightarrow>
          (case read_rows py rest of
             Inl err \<Rightarrow> Inl err
           | Inr history \<Rightarrow> Inr (det # history)))"

text \<open>
  The same loop as in \<^verbatim>\<open>generate_kml\<close>, on the converted rows. \<^verbatim>\<open>last_ts\<close> is
  \<^verbatim>\<open>None\<close> or a \<^verbatim>\<open>datetime\<close>, which is always truthy; nothing in the loop or in the
  flush raises.
\<close>

type_synonym cum_point = "real \<times> real \<times> int"

type_synonym cum_folder = "nat \<times> cum_point list \<times> (real \<times> real) list"

definition cum_pilot_pts :: "string \<Rightarrow> int \<Rightarrow> int \<Rightarrow> csv_record list \<Rightarrow> (real \<times> real) list" where
  "cum_pilot_pts mac start_ts end_ts history =
     map (\<lambda>d. (row_pilot_long d, row_pilot_lat d))
       (filter (\<lambda>d. row_mac d = mac \<and> row_pilot_lat d \<noteq> 0 \<and> row_pilot_long d \<noteq> 0 \<and>
                     start_ts \<le> row_last_update d \<and> row_last_update d \<le> end_ts) history)"

definition cum_render :: "string \<Rightarrow> csv_record list \<Rightarrow> nat \<Rightarrow> cum_point list \<Rightarrow> cum_folder" where
  "cum_render mac history flight_idx current_flight =
     (flight_idx, current_flight,
      cum_pilot_pts mac (snd (snd (hd current_flight))) (snd (snd (last current_flight))) history)"

type_synonym cum_state = "nat \<times> int option \<times> cum_point list \<times> cum_folder list"

fun cumulative_loop :: "python \<Rightarrow> string \<Rightarrow> csv_record list \<Rightarrow> csv_record list \<Rightarrow> cum_state \<Rightarrow> cum_state" where
  "cumulative_loop py mac history [] st = st"
| "cumulative_loop py mac history (det # rest) (flight_idx, last_ts, current_flight, folders) =
     (if row_mac det \<noteq> mac
      then cumulative_loop py mac history rest (flight_idx, last_ts, current_flight, folders)
      else
        (let lat = row_drone_lat det; lon = row_drone_long det; ts = row_last_update det
         in if lat \<noteq> 0 \<and> lon \<noteq> 0
            then (if (case last_ts of
                        None \<Rightarrow> False
                      | Some l \<Rightarrow> total_seconds py (ts - l) > staleThreshold)
                  then (if current_flight \<noteq> []
                        then cumulative_loop py mac history rest
                               (flight_idx + 1, Some ts, [(lon, lat, ts)],
                                folders @ [cum_render mac history flight_idx current_flight])
                        else cumulative_loop py mac history rest
                               (flight_idx, Some ts, [(lon, lat, ts)], folders))
                  else cumulative_loop py mac history rest
                         (flight_idx, Some ts, current_flight @ [(lon, lat, ts)], folders))
            else cumulative_loop py mac history rest
                   (flight_idx, last_ts, current_flight, folders)))"

definition cum_final_flush :: "string \<Rightarrow> csv_record list \<Rightarrow> cum_state \<Rightarrow> cum_folder list" where
  "cum_final_flush mac history st =
     (case st of (flight_idx, last_ts, current_flight, folders) \<Rightarrow>
        if current_flight \<noteq> []
        then folders @ [cum_render mac history flight_idx current_flight]
        else folders)"

definition cum_mac_folders :: "python \<Rightarrow> string \<Rightarrow> csv_record list \<Rightarrow> cum_folder list" where
  "cum_mac_folders py mac history =
     cum_final_flush mac history (cumulative_loop py mac history history (1, None, [], []))"

definition generate_cumulative_kml :: "python \<Rightarrow> csv_row list \<Rightarrow> error + (string \<times> cum_folder list) list" where
  "generate_cumulative_kml py rows =
     (case read_rows py rows of
        Inl err \<Rightarrow> Inl err
      | Inr history \<Rightarrow>
          Inr (map (\<lambda>mac. (mac, cum_mac_folders py mac history))
                 (sort (remdups (map row_mac history)))))"

section \<open>update_detection\<close>

definition valid_drone :: "detection \<Rightarrow> bool" where
  "valid_drone d =
     (ne_zero (dict_get_default d ''drone_lat'' (PNum 0)) \<and>
      ne_zero (dict_get_default d ''drone_long'' (PNum 0)))"

text \<open>
  How a call ends: it returns, an exception escapes from it, or it is still waiting inside
  \<^verbatim>\<open>requests.post\<close>. The state that goes with it is what the call has done so far.
\<close>

datatype outcome = Returns | Raises error | Blocked

text \<open>
  The webhook block of the no-GPS branch, for a post that comes back: an exception is caught
  and logged.
\<close>

definition fire_webhook :: "env \<Rightarrow> detection \<Rightarrow> state \<Rightarrow> state" where
  "fire_webhook e d s =
     (if truthy (WEBHOOK_URL e)
      then emit (WebhookPost (WEBHOOK_URL e) d 5 #
                 (if post_result e = PostRaises then [LogError] else [])) s
      else s)"

text \<open>
  The calls \<^verbatim>\<open>generate_cumulative_kml()\<close> and \<^verbatim>\<open>generate_kml()\<close>: the file is written
  when the function gets to its end; an exception from it is not caught by
  \<^verbatim>\<open>update_detection\<close>.
\<close>

definition regen_cumulative :: "env \<Rightarrow> state \<Rightarrow> error + state" where
  "regen_cumulative e s =
     (case generate_cumulative_kml (python e) (cumulative_csv s) of
        Inl err \<Rightarrow> Inl err
      | Inr doc \<Rightarrow> Inr (emit [KmlRegen CumulativeKml] s))"

definition regen_session :: "env \<Rightarrow> state \<Rightarrow> error + state" where
  "regen_session e s =
     (case generate_kml (python e) (detection_history s) of
        Inl err \<Rightarrow> Inl err
      | Inr doc \<Rightarrow> Inr (emit [KmlRegen SessionKml] s))"

text \<open>
  The no-GPS branch. The record replaces the tracked entry as it arrived and is appended to
  the history; then comes the webhook post, made in line, so that nothing after it is done
  until it has come back; then the CSV rows, the cumulative KML, the cache write and the
  session KML, each of the last three able to raise.
\<close>

definition update_no_gps :: "env \<Rightarrow> pykey \<Rightarrow> pyval \<Rightarrow> detection \<Rightarrow> state \<Rightarrow> outcome \<times> state" where
  "update_no_gps e k mac d s =
     (let new_drone_lat = dict_get_default d ''drone_lat'' (PNum 0);
          new_drone_long = dict_get_default d ''drone_long'' (PNum 0);
          s1 = s\<lparr>tracked_pairs := AList.update k d (tracked_pairs s),
                 detection_history := detection_history s @ [d]\<rparr>
      in if truthy (WEBHOOK_URL e) \<and> post_result e = PostPending
         then (Blocked, emit [WebhookPost (WEBHOOK_URL e) d 5] s1)
         else
           (let s2 = fire_webhook e d s1;
                s3 = append_rows e k mac d new_drone_lat new_drone_long s2
            in case regen_cumulative e s3 of
                 Inl err \<Rightarrow> (Raises err, s3)
               | Inr s4 \<Rightarrow>
                   (case (if truthy (dict_get d ''basic_id'')
                          then write_to_faa_cache mac (dict_get d ''basic_id'')
                                 (dict_get_default d ''faa_data'' (PDict [])) s4
                          else Inr s4) of
                      Inl err \<Rightarrow> (Raises err, s4)
                    | Inr s5 \<Rightarrow>
                        (case regen_session e s5 of
                           Inl err \<Rightarrow> (Raises err, s5)
                         | Inr s6 \<Rightarrow> (Returns, s6)))))"

text \<open>
  The loop \<^verbatim>\<open>for (c_mac, _), faa_data in FAA_CACHE.items(): if c_mac == mac: ...; break\<close>.
\<close>

fun cache_any_for_mac :: "pykey \<Rightarrow> ((pykey \<times> pykey) \<times> pyval) list \<Rightarrow> pyval option" where
  "cache_any_for_mac k [] = None"
| "cache_any_for_mac k (((c_mac, c_rid), faa_data) # rest) =
     (if c_mac = k then Some faa_data else cache_any_for_mac k rest)"

text \<open>
  The fields the GPS branch writes into the record before the merge, and the carry-forward
  of the previous \<^verbatim>\<open>basic_id\<close>.
\<close>

definition normalise_fields :: "env \<Rightarrow> detection \<Rightarrow> detection" where
  "normalise_fields e d =
     d(''drone_lat'' \<mapsto> dict_get_default d ''drone_lat'' (PNum 0),
       ''drone_long'' \<mapsto> dict_get_default d ''drone_long'' (PNum 0),
       ''drone_altitude'' \<mapsto> dict_get_default d ''drone_altitude'' (PNum 0),
       ''pilot_lat'' \<mapsto> dict_get_default d ''pilot_lat'' (PNum 0),
       ''pilot_long'' \<mapsto> dict_get_default d ''pilot_long'' (PNum 0),
       ''last_update'' \<mapsto> PNum (time_time e))"

definition carry_basic_id :: "detection option \<Rightarrow> detection \<Rightarrow> detection" where
  "carry_basic_id prev d =
     (case prev of
        Some p \<Rightarrow>
          if \<not> truthy (dict_get d ''basic_id'') \<and> truthy (dict_get p ''basic_id'')
          then d(''basic_id'' \<mapsto> dict_get p ''basic_id'')
          else d
      | None \<Rightarrow> d)"

text \<open>
  The three lookups for \<^verbatim>\<open>faa_data\<close>. The exact lookup hashes \<^verbatim>\<open>(mac, remote_id)\<close> and
  raises on an unhashable \<^verbatim>\<open>remote_id\<close>; the two fallbacks run only while the record has
  no \<^verbatim>\<open>faa_data\<close> key.
\<close>

definition exact_lookup :: "pykey \<Rightarrow> detection \<Rightarrow> state \<Rightarrow> error + detection" where
  "exact_lookup k d s =
     (let remote_id = dict_get d ''basic_id''
      in if truthy remote_id
         then (case key_of remote_id of
                 None \<Rightarrow> Inl TypeError
               | Some kr \<Rightarrow>
                   (case map_of (FAA_CACHE s) (k, kr) of
                      Some f \<Rightarrow> Inr (d(''faa_data'' \<mapsto> f))
                    | None \<Rightarrow> Inr d))
         else Inr d)"

definition mac_fallback :: "pykey \<Rightarrow> detection \<Rightarrow> state \<Rightarrow> detection" where
  "mac_fallback k d s =
     (if d ''faa_data'' = None
      then (case cache_any_for_mac k (FAA_CACHE s) of
              Some f \<Rightarrow> d(''faa_data'' \<mapsto> f)
            | None \<Rightarrow> d)
      else d)"

definition prev_fallback :: "detection option \<Rightarrow> detection \<Rightarrow> detection" where
  "prev_fallback prev d =
     (if d ''faa_data'' = None
      then (case prev of
              Some p \<Rightarrow> (case p ''faa_data'' of Some f \<Rightarrow> d(''faa_data'' \<mapsto> f) | None \<Rightarrow> d)
            | None \<Rightarrow> d)
      else d)"

definition cache_write_back :: "pyval \<Rightarrow> detection \<Rightarrow> state \<Rightarrow> error + state" where
  "cache_write_back mac d s =
     (case d ''faa_data'' of
        Some f \<Rightarrow> write_to_faa_cache mac (dict_get_default d ''basic_id'' (PStr '''')) f s
      | None \<Rightarrow> Inr s)"

text \<open>
  The record the GPS branch stores: fields normalised, \<^verbatim>\<open>basic_id\<close> carried forward,
  \<^verbatim>\<open>faa_data\<close> looked up.
\<close>

definition merge_detection :: "env \<Rightarrow> pykey \<Rightarrow> detection \<Rightarrow> state \<Rightarrow> error + detection" where
  "merge_detection e k d s =
     (let prev = map_of (tracked_pairs s) k;
          d1 = carry_basic_id prev (normalise_fields e d)
      in case exact_lookup k d1 s of
           Inl err \<Rightarrow> Inl err
         | Inr d2 \<Rightarrow> Inr (prev_fallback prev (mac_fallback k d2 s)))"

text \<open>
  The GPS branch. A TypeError from hashing a remote ID escapes before anything is stored.
  \<^verbatim>\<open>socketio\<close> is not defined in the module, so the emit raises NameError into its own
  \<^verbatim>\<open>except Exception: pass\<close> and does nothing. After the record is stored and the CSV
  rows are written, the two KML files are regenerated, and an exception from either escapes.
\<close>

definition update_gps :: "env \<Rightarrow> pykey \<Rightarrow> pyval \<Rightarrow> detection \<Rightarrow> state \<Rightarrow> outcome \<times> state" where
  "update_gps e k mac d s =
     (case merge_detection e k d s of
        Inl err \<Rightarrow> (Raises err, s)
      | Inr d3 \<Rightarrow>
          (case cache_write_back mac d3 s of
             Inl err \<Rightarrow> (Raises err, s)
           | Inr s1 \<Rightarrow>
               (let s2 = s1\<lparr>tracked_pairs := AList.update k d3 (tracked_pairs s1),
                             detection_history := detection_history s1 @ [d3]\<rparr>;
                    s3 = append_rows e k mac d3 (dict_get_default d3 ''drone_lat'' (PStr ''''))
                           (dict_get_default d3 ''drone_long'' (PStr '''')) s2
                in case regen_cumulative e s3 of
                     Inl err \<Rightarrow> (Raises err, s3)
                   | Inr s4 \<Rightarrow>
                       (case regen_session e s4 of
                          Inl err \<Rightarrow> (Raises err, s4)
                        | Inr s5 \<Rightarrow> (Returns, s5)))))"

text \<open>
  \<^verbatim>\<open>update_detection\<close> returns nothing; the model returns how the call ended and the state
  it left behind. \<^verbatim>\<open>tracked_pairs.get(mac)\<close> hashes the mac.
\<close>

definition update_detection :: "env \<Rightarrow> detection \<Rightarrow> state \<Rightarrow> outcome \<times> state" where
  "update_detection e d s =
     (let mac = dict_get d ''mac''
      in if \<not> truthy mac then (Returns, s)
         else (case key_of mac of
                 None \<Rightarrow> (Raises TypeError, s)
               | Some k \<Rightarrow>
                   if \<not> valid_drone d then update_no_gps e k mac d s
                   else update_gps e k mac d s))"

text \<open>
  Reading the live state: \<^verbatim>\<open>tracked_pairs[mac].get(field)\<close> where the mac is tracked and
  the field is there.
\<close>

definition live_field :: "state \<Rightarrow> pykey \<Rightarrow> string \<Rightarrow> pyval option" where
  "live_field s k x = (case map_of (tracked_pairs s) k of None \<Rightarrow> None | Some d \<Rightarrow> d x)"

text \<open>
  The lookup order as the design words it: the cache entry of the exact key (for a
  non-empty remote ID), else the first cache entry whose key has this mac, else what the
  previous entry carries.
\<close>

definition spec_resolve ::
  "pykey \<Rightarrow> pyval \<Rightarrow> detection option \<Rightarrow> ((pykey \<times> pykey) \<times> pyval) list \<Rightarrow> pyval option" where
  "spec_resolve k remote_id prev cache =
     (case (if truthy remote_id then Option.bind (key_of remote_id) (\<lambda>kr. map_of cache (k, kr))
            else None) of
        Some f \<Rightarrow> Some f
      | None \<Rightarrow>
          (case map_option snd (List.find (\<lambda>((c_mac, c_rid), f). c_mac = k) cache) of
             Some f \<Rightarrow> Some f
           | None \<Rightarrow> Option.bind prev (\<lambda>p. p ''faa_data'')))"

fun is_webhook_post :: "effect \<Rightarrow> bool" where
  "is_webhook_post (WebhookPost url payload timeout) = True"
| "is_webhook_post _ = False"

fun is_csv_append :: "effect \<Rightarrow> bool" where
  "is_csv_append (CsvAppend file row) = True"
| "is_csv_append _ = False"

section \<open>GET /api/faa/<identifier>\<close>

datatype response = Ok200 pyval | NotFound404

text \<open>
  The three loops of \<^verbatim>\<open>api_get_faa\<close>, each returning at its first hit. The identifier is a
  path segment, hence a string; a value compares equal to it only if it is that string.
\<close>

fun scan_tracked_by_basic_id :: "string \<Rightarrow> (pykey \<times> detection) list \<Rightarrow> pyval option" where
  "scan_tracked_by_basic_id identifier [] = None"
| "scan_tracked_by_basic_id identifier ((mac, det) # rest) =
     (if dict_get det ''basic_id'' = PStr identifier \<and> det ''faa_data'' \<noteq> None
      then det ''faa_data''
      else scan_tracked_by_basic_id identifier rest)"

fun scan_cache_by_rid :: "string \<Rightarrow> ((pykey \<times> pykey) \<times> pyval) list \<Rightarrow> pyval option" where
  "scan_cache_by_rid identifier [] = None"
| "scan_cache_by_rid identifier (((c_mac, c_rid), faa_data) # rest) =
     (if c_rid = KStr identifier then Some faa_data else scan_cache_by_rid identifier rest)"

fun scan_cache_by_mac :: "string \<Rightarrow> ((pykey \<times> pykey) \<times> pyval) list \<Rightarrow> pyval option" where
  "scan_cache_by_mac identifier [] = None"
| "scan_cache_by_mac identifier (((c_mac, c_rid), faa_data) # rest) =
     (if c_mac = KStr identifier then Some faa_data else scan_cache_by_mac identifier rest)"

definition tracked_faa :: "string \<Rightarrow> state \<Rightarrow> pyval option" where
  "tracked_faa identifier s =
     (case map_of (tracked_pairs s) (KStr identifier) of
        None \<Rightarrow> None
      | Some det \<Rightarrow> det ''faa_data'')"

definition api_get_faa :: "string \<Rightarrow> state \<Rightarrow> response" where
  "api_get_faa identifier s =
     (case tracked_faa identifier s of
        Some f \<Rightarrow> Ok200 f
      | None \<Rightarrow>
          (case scan_tracked_by_basic_id identifier (tracked_pairs s) of
             Some f \<Rightarrow> Ok200 f
           | None \<Rightarrow>
               (case scan_cache_by_rid identifier (FAA_CACHE s) of
                  Some f \<Rightarrow> Ok200 f
                | None \<Rightarrow>
                    (case scan_cache_by_mac identifier (FAA_CACHE s) of
                       Some f \<Rightarrow> Ok200 f
                     | None \<Rightarrow> NotFound404))))"

text \<open>
  The four lookups as the interface description words them: the tracked entry of that mac,
  the first tracked entry with that remote ID that carries data, the first cache entry whose
  key has that remote ID, the first cache entry whose key has that mac.
\<close>

definition live_by_mac :: "string \<Rightarrow> state \<Rightarrow> pyval option" where
  "live_by_mac identifier s =
     Option.bind (map_of (tracked_pairs s) (KStr identifier)) (\<lambda>det. det ''faa_data'')"

definition live_by_remote_id :: "string \<Rightarrow> state \<Rightarrow> pyval option" where
  "live_by_remote_id identifier s =
     Option.bind
       (List.find (\<lambda>(mac, det). dict_get det ''basic_id'' = PStr identifier \<and> det ''faa_data'' \<noteq> None)
          (tracked_pairs s))
       (\<lambda>(mac, det). det ''faa_data'')"

definition cache_by_remote_id :: "string \<Rightarrow> state \<Rightarrow> pyval option" where
  "cache_by_remote_id identifier s =
     map_option snd (List.find (\<lambda>((c_mac, c_rid), f). c_rid = KStr identifier) (FAA_CACHE s))"

definition cache_by_mac :: "string \<Rightarrow> state \<Rightarrow> pyval option" where
  "cache_by_mac identifier s =
     map_option snd (List.find (\<lambda>((c_mac, c_rid), f). c_mac = KStr identifier) (FAA_CACHE s))"

section \<open>GET /api/paths\<close>

text \<open>
  Equality of values, \<^verbatim>\<open>==\<close>: numbers and booleans compare by value, lists element by
  element, dicts key by key whatever their order.
\<close>

fun py_eq :: "pyval \<Rightarrow> pyval \<Rightarrow> bool" where
  "py_eq PNone PNone = True"
| "py_eq (PBool a) (PBool b) = (a = b)"
| "py_eq (PBool a) (PNum y) = ((if a then 1 else 0) = y)"
| "py_eq (PNum x) (PBool b) = (x = (if b then 1 else 0))"
| "py_eq (PNum x) (PNum y) = (x = y)"
| "py_eq (PStr s) (PStr t) = (s = t)"
| "py_eq (PList xs) (PList ys) = list_all2 py_eq xs ys"
| "py_eq (PDict xs) (PDict ys) =
     (list_all (\<lambda>kv. case map_of ys (fst kv) of None \<Rightarrow> False | Some w \<Rightarrow> py_eq (snd kv) w) xs \<and>
      list_all (\<lambda>kv. map_of xs (fst kv) \<noteq> None) ys)"
| "py_eq _ _ = False"

text \<open>A path point is the two-element list \<^verbatim>\<open>[lat, long]\<close>.\<close>

type_synonym point = "pyval \<times> pyval"

definition point_eq :: "point \<Rightarrow> point \<Rightarrow> bool" where
  "point_eq p q = (py_eq (fst p) (fst q) \<and> py_eq (snd p) (snd q))"

type_synonym paths = "(pykey \<times> point list) list"

text \<open>\<^verbatim>\<open>paths.setdefault(mac, []).append(p)\<close>; a new mac goes to the end of the dict.\<close>

fun setdefault_append :: "pykey \<Rightarrow> point \<Rightarrow> paths \<Rightarrow> paths" where
  "setdefault_append k p [] = [(k, [p])]"
| "setdefault_append k p ((k', ps) # rest) =
     (if k' = k then (k', ps @ [p]) # rest else (k', ps) # setdefault_append k p rest)"

definition add_point :: "pyval \<Rightarrow> pyval \<Rightarrow> pyval \<Rightarrow> paths \<Rightarrow> error + paths" where
  "add_point mac lat lon ps =
     (if ne_zero lat \<and> ne_zero lon
      then (case key_of mac of
              None \<Rightarrow> Inl TypeError
            | Some k \<Rightarrow> Inr (setdefault_append k (lat, lon) ps))
      else Inr ps)"

fun paths_loop :: "detection list \<Rightarrow> paths \<times> paths \<Rightarrow> error + paths \<times> paths" where
  "paths_loop [] acc = Inr acc"
| "paths_loop (det # rest) (drone_paths, pilot_paths) =
     (let mac = dict_get det ''mac''
      in if \<not> truthy mac then paths_loop rest (drone_paths, pilot_paths)
         else (case add_point mac (dict_get_default det ''drone_lat'' (PNum 0))
                      (dict_get_default det ''drone_long'' (PNum 0)) drone_paths of
                 Inl err \<Rightarrow> Inl err
               | Inr dp \<Rightarrow>
                   (case add_point mac (dict_get_default det ''pilot_lat'' (PNum 0))
                           (dict_get_default det ''pilot_long'' (PNum 0)) pilot_paths of
                      Inl err \<Rightarrow> Inl err
                    | Inr pp \<Rightarrow> paths_loop rest (dp, pp))))"

text \<open>The inner function \<^verbatim>\<open>dedupe\<close>: a point is kept when it differs from the last one kept.\<close>

fun dedupe_loop :: "point list \<Rightarrow> point list \<Rightarrow> point list" where
  "dedupe_loop [] new_path = new_path"
| "dedupe_loop (p # rest) new_path =
     (if \<not> point_eq p (last new_path) then dedupe_loop rest (new_path @ [p])
      else dedupe_loop rest new_path)"

definition dedupe :: "point list \<Rightarrow> point list" where
  "dedupe path = (case path of [] \<Rightarrow> [] | p # rest \<Rightarrow> dedupe_loop rest [p])"

definition api_paths :: "detection list \<Rightarrow> error + paths \<times> paths" where
  "api_paths history =
     (case paths_loop history ([], []) of
        Inl err \<Rightarrow> Inl err
      | Inr (drone_paths, pilot_paths) \<Rightarrow>
          Inr (map (\<lambda>(k, ps). (k, dedupe ps)) drone_paths,
               map (\<lambda>(k, ps). (k, dedupe ps)) pilot_paths))"

text \<open>The list a paths dict holds for a mac, empty when the mac is not a key.\<close>

definition lookup_path :: "paths \<Rightarrow> pykey \<Rightarrow> point list" where
  "lookup_path ps k = (case map_of ps k of None \<Rightarrow> [] | Some l \<Rightarrow> l)"

text \<open>
  What the interface promises, worded on the history: the points of one mac whose two
  coordinates are nonzero, in history order, and the collapse of each run of equal
  neighbours to its first point.
\<close>

definition history_points :: "string \<Rightarrow> string \<Rightarrow> pykey \<Rightarrow> detection list \<Rightarrow> point list" where
  "history_points lat_key lon_key k history =
     map (\<lambda>det. (dict_get_default det lat_key (PNum 0), dict_get_default det lon_key (PNum 0)))
       (filter (\<lambda>det. truthy (dict_get det ''mac'') \<and> key_of (dict_get det ''mac'') = Some k \<and>
                       ne_zero (dict_get_default det lat_key (PNum 0)) \<and>
                       ne_zero (dict_get_default det lon_key (PNum 0))) history)"

fun collapse_runs :: "point list \<Rightarrow> point list" where
  "collapse_runs [] = []"
| "collapse_runs [p] = [p]"
| "collapse_runs (p # q # rest) =
     (if point_eq q p then collapse_runs (p # rest) else p # collapse_runs (q # rest))"

fun no_equal_neighbours :: "point list \<Rightarrow> bool" where
  "no_equal_neighbours [] = True"
| "no_equal_neighbours [p] = True"
| "no_equal_neighbours (p # q # rest) = (\<not> point_eq q p \<and> no_equal_neighbours (q # rest))"

text \<open>Every history entry written by \<^verbatim>\<open>update_detection\<close> has a truthy, hashable mac.\<close>

definition mac_ok :: "detection \<Rightarrow> bool" where
  "mac_ok det = (truthy (dict_get det ''mac'') \<and> key_of (dict_get det ''mac'') \<noteq> None)"

section \<open>Flight segmentation as the design words it\<close>

text \<open>
  On the time-ordered points of one mac: a point opens a new flight exactly when its gap to
  the previous point exceeds the threshold; flights are numbered from 1. The gap of two
  points is the difference of their timestamps as the program computes it.
\<close>

fun spec_flights :: "('p \<Rightarrow> 'p \<Rightarrow> real) \<Rightarrow> 'p list \<Rightarrow> 'p list list" where
  "spec_flights gap [] = []"
| "spec_flights gap [p] = [[p]]"
| "spec_flights gap (p # q # rest) =
     (if gap p q > staleThreshold then [p] # spec_flights gap (q # rest)
      else (case spec_flights gap (q # rest) of
              [] \<Rightarrow> [[p]]
            | f # fs \<Rightarrow> (p # f) # fs))"

fun numbered_from :: "nat \<Rightarrow> 'a list \<Rightarrow> (nat \<times> 'a) list" where
  "numbered_from n [] = []"
| "numbered_from n (f # fs) = (n, f) # numbered_from (Suc n) fs"

text \<open>The index and the points of a folder.\<close>

definition flight_of :: "nat \<times> 'p list \<times> 'q list \<Rightarrow> nat \<times> 'p list" where
  "flight_of f = (fst f, fst (snd f))"

definition flight_points :: "nat \<times> 'p list \<times> 'q list \<Rightarrow> 'p list" where
  "flight_points f = fst (snd f)"

text \<open>
  The entries of the history that bring a point to the session loop for one mac, the point
  an entry brings, the timestamp of a point as a number, and the gap from one point to the
  next.
\<close>

definition brings_point :: "pykey \<Rightarrow> detection \<Rightarrow> bool" where
  "brings_point mac det =
     (key_of (dict_get det ''mac'') = Some mac \<and>
      truthy (dict_get det ''drone_lat'') \<and> truthy (dict_get det ''drone_long''))"

definition point_of :: "detection \<Rightarrow> kml_point" where
  "point_of det =
     (dict_get det ''drone_long'', dict_get det ''drone_lat'', dict_get det ''last_update'')"

definition kml_points :: "pykey \<Rightarrow> detection list \<Rightarrow> kml_point list" where
  "kml_points mac history = map point_of (filter (brings_point mac) history)"

definition point_ts :: "kml_point \<Rightarrow> real" where
  "point_ts p = (case num_of (snd (snd p)) of Some r \<Rightarrow> r | None \<Rightarrow> 0)"

definition session_gap :: "python \<Rightarrow> kml_point \<Rightarrow> kml_point \<Rightarrow> real" where
  "session_gap py p q = float_sub py (point_ts q) (point_ts p)"

text \<open>The same for the converted rows of the cumulative CSV.\<close>

definition row_brings :: "string \<Rightarrow> csv_record \<Rightarrow> bool" where
  "row_brings mac det = (row_mac det = mac \<and> row_drone_lat det \<noteq> 0 \<and> row_drone_long det \<noteq> 0)"

definition row_point :: "csv_record \<Rightarrow> cum_point" where
  "row_point det = (row_drone_long det, row_drone_lat det, row_last_update det)"

definition cum_points :: "string \<Rightarrow> csv_record list \<Rightarrow> cum_point list" where
  "cum_points mac rows = map row_point (filter (row_brings mac) rows)"

definition cum_ts :: "cum_point \<Rightarrow> int" where
  "cum_ts p = snd (snd p)"

definition cumulative_gap :: "python \<Rightarrow> cum_point \<Rightarrow> cum_point \<Rightarrow> real" where
  "cumulative_gap py p q = total_seconds py (cum_ts q - cum_ts p)"

section \<open>What update_detection writes into the history\<close>

text \<open>
  Only \<^verbatim>\<open>update_detection\<close> appends to the history. So every record in it has a
  truthy, hashable mac, and a record whose drone coordinates are both truthy went through
  the GPS branch and carries as \<^verbatim>\<open>last_update\<close> a reading of \<^verbatim>\<open>time.time()\<close>: a
  number, and not zero unless the clock stood at the epoch.
\<close>

definition stamp_ok :: "pyval \<Rightarrow> bool" where
  "stamp_ok ts = (case num_of ts of None \<Rightarrow> False | Some t \<Rightarrow> t \<noteq> 0)"

definition stored_ok :: "detection \<Rightarrow> bool" where
  "stored_ok det =
     (truthy (dict_get det ''mac'') \<and> hashable (dict_get det ''mac'') \<and>
      (truthy (dict_get det ''drone_lat'') \<and> truthy (dict_get det ''drone_long'')
         \<longrightarrow> stamp_ok (dict_get det ''last_update'')))"

text \<open>
  A history on which \<^verbatim>\<open>generate_kml\<close> raises nothing: the macs are strings, the timestamp
  of every point is in the range of \<^verbatim>\<open>fromtimestamp\<close>, and every record with truthy pilot
  coordinates has a number for \<^verbatim>\<open>last_update\<close>.
\<close>

fun is_text :: "pyval \<Rightarrow> bool" where
  "is_text (PStr s) = True"
| "is_text _ = False"

definition render_safe :: "python \<Rightarrow> detection \<Rightarrow> bool" where
  "render_safe py det =
     (is_text (dict_get det ''mac'') \<and>
      (truthy (dict_get det ''drone_lat'') \<and> truthy (dict_get det ''drone_long'')
         \<longrightarrow> (case num_of (dict_get det ''last_update'') of
                None \<Rightarrow> False
              | Some t \<Rightarrow> fromtimestamp_error py t = None)) \<and>
      (truthy (dict_get det ''pilot_lat'') \<and> truthy (dict_get det ''pilot_long'')
         \<longrightarrow> num_of (dict_get det ''last_update'') \<noteq> None))"

text \<open>What \<^verbatim>\<open>generate_kml\<close> holds for a mac, nothing when the mac is not in it.\<close>

definition doc_folders :: "('k \<times> 'f list) list \<Rightarrow> 'k \<Rightarrow> 'f list" where
  "doc_folders doc mac = (case map_of doc mac of None \<Rightarrow> [] | Some fs \<Rightarrow> fs)"

text \<open>
  The exception the two regenerations at the end of \<^verbatim>\<open>update_detection\<close> end with, if
  any: the cumulative KML first, then the session KML.
\<close>

definition regen_error :: "env \<Rightarrow> state \<Rightarrow> error option" where
  "regen_error e s =
     (case generate_cumulative_kml (python e) (cumulative_csv s) of
        Inl err \<Rightarrow> Some err
      | Inr cdoc \<Rightarrow>
          (case generate_kml (python e) (detection_history s) of
             Inl err \<Rightarrow> Some err
           | Inr doc \<Rightarrow> None))"

section \<open>Sample inputs\<close>

text \<open>
  A runtime for the samples, whose numbers are whole seconds: on them the float difference
  is the exact one. Every timestamp is in range, and \<^verbatim>\<open>float\<close> reads the two texts
  that occur.
\<close>

definition py_exact :: python where
  "py_exact = \<lparr>float_sub = (\<lambda>a b. a - b), total_seconds = (\<lambda>us. real_of_int us / 1000000),
                fromtimestamp_error = (\<lambda>t. None), py_str = (\<lambda>v. ''?''),
                py_float = (\<lambda>s. if s = ''10'' then Some 10 else if s = ''20'' then Some 20 else None)\<rparr>"

text \<open>
  An environment with a webhook configured whose post raises, and a state tracking mac
  \<^verbatim>\<open>AA\<close> with remote ID \<^verbatim>\<open>X\<close> and registry data attached.
\<close>

definition env_hook :: env where
  "env_hook = \<lparr>WEBHOOK_URL = PStr ''http://hook'', ALIASES = Map.empty, time_time = 1000,
                datetime_now = (\<lambda>n. 1000000000), post_result = PostRaises, python = py_exact\<rparr>"

definition faa_x :: pyval where
  "faa_x = PDict [(''makeName'', PStr ''Acme'')]"

definition det_x :: detection where
  "det_x = [''mac'' \<mapsto> PStr ''AA'', ''drone_lat'' \<mapsto> PNum 10, ''drone_long'' \<mapsto> PNum 20,
            ''basic_id'' \<mapsto> PStr ''X'', ''faa_data'' \<mapsto> faa_x, ''last_update'' \<mapsto> PNum 900]"

definition state_x :: state where
  "state_x = \<lparr>tracked_pairs = [(KStr ''AA'', det_x)], detection_history = [det_x],
               FAA_CACHE = [((KStr ''AA'', KStr ''X''), faa_x)], cumulative_csv = [],
               effects = []\<rparr>"

definition det_fix :: detection where
  "det_fix = [''mac'' \<mapsto> PStr ''AA'', ''drone_lat'' \<mapsto> PNum 11, ''drone_long'' \<mapsto> PNum 21,
              ''last_update'' \<mapsto> PNum 5]"

definition det_nofix :: detection where
  "det_nofix = [''mac'' \<mapsto> PStr ''AA'', ''rssi'' \<mapsto> PNum (-60), ''last_update'' \<mapsto> PNum 5]"

text \<open>
  A record that brings registry data of its own, one with remote ID \<^verbatim>\<open>R1\<close> and none, and
  a state whose cache knows mac \<^verbatim>\<open>AA\<close> only under remote ID \<^verbatim>\<open>R2\<close>.
\<close>

definition faa_own :: pyval where
  "faa_own = PDict [(''makeName'', PStr ''Own'')]"

definition det_own :: detection where
  "det_own = [''mac'' \<mapsto> PStr ''AA'', ''drone_lat'' \<mapsto> PNum 10, ''drone_long'' \<mapsto> PNum 20,
              ''basic_id'' \<mapsto> PStr ''R1'', ''faa_data'' \<mapsto> faa_own]"

definition det_r1 :: detection where
  "det_r1 = [''mac'' \<mapsto> PStr ''AA'', ''drone_lat'' \<mapsto> PNum 10, ''drone_long'' \<mapsto> PNum 20,
             ''basic_id'' \<mapsto> PStr ''R1'']"

definition state_r2 :: state where
  "state_r2 = \<lparr>tracked_pairs = [], detection_history = [],
                FAA_CACHE = [((KStr ''AA'', KStr ''R2''), faa_x)], cumulative_csv = [],
                effects = []\<rparr>"

text \<open>
  Histories for the flight loop: fixes of \<^verbatim>\<open>AA\<close> at 1000, 1030, 1090 and 1300 seconds with
  a no-GPS record in between. The same four times, in microseconds, as rows of the
  cumulative CSV.
\<close>

definition fix_at :: "real \<Rightarrow> detection" where
  "fix_at t = [''mac'' \<mapsto> PStr ''AA'', ''drone_lat'' \<mapsto> PNum 10, ''drone_long'' \<mapsto> PNum 20,
               ''last_update'' \<mapsto> PNum t]"

definition history_f :: "detection list" where
  "history_f = [fix_at 1000, fix_at 1030, det_nofix, fix_at 1090, fix_at 1300]"

definition row_at :: "int \<Rightarrow> csv_row" where
  "row_at t = \<lparr>col_timestamp = t * 1000000, col_alias = PStr '''', col_mac = PStr ''AA'',
               col_rssi = PStr '''', col_drone_lat = PStr ''10'', col_drone_long = PStr ''20'',
               col_drone_altitude = PStr '''', col_pilot_lat = PStr '''', col_pilot_long = PStr '''',
               col_basic_id = PStr '''', col_faa_data = PDict []\<rparr>"

definition rows_f :: "csv_row list" where
  "rows_f = [row_at 1000, row_at 1030, row_at 1090, row_at 1300]"

text \<open>A history for the paths: the same fix twice, a no-GPS record, a fix elsewhere.\<close>

definition det_y :: detection where
  "det_y = [''mac'' \<mapsto> PStr ''AA'', ''drone_lat'' \<mapsto> PNum 11, ''drone_long'' \<mapsto> PNum 21,
            ''pilot_lat'' \<mapsto> PNum 1, ''pilot_long'' \<mapsto> PNum 2, ''last_update'' \<mapsto> PNum 930]"

definition history_x :: "detection list" where
  "history_x = [det_x, det_x, det_nofix, det_y]"

text \<open>A record with one drone coordinate nonzero and the other zero.\<close>

definition det_half :: detection where
  "det_half = [''mac'' \<mapsto> PStr ''AA'', ''drone_lat'' \<mapsto> PNum 5, ''drone_long'' \<mapsto> PNum 0]"

text \<open>
  Registry data without a cache entry: mac \<^verbatim>\<open>AA\<close> tracked from a no-GPS record that
  brought \<^verbatim>\<open>faa_data\<close> and no remote ID. A fix-bearing record whose \<^verbatim>\<open>faa_data\<close> is
  \<^verbatim>\<open>null\<close>.
\<close>

definition det_faa_only :: detection where
  "det_faa_only = [''mac'' \<mapsto> PStr ''AA'', ''faa_data'' \<mapsto> faa_x]"

definition state_n :: state where
  "state_n = \<lparr>tracked_pairs = [(KStr ''AA'', det_faa_only)], detection_history = [det_faa_only],
               FAA_CACHE = [], cumulative_csv = [], effects = []\<rparr>"

definition det_null :: detection where
  "det_null = [''mac'' \<mapsto> PStr ''AA'', ''drone_lat'' \<mapsto> PNum 11, ''drone_long'' \<mapsto> PNum 21,
               ''faa_data'' \<mapsto> PNone]"

text \<open>
  A cache with the empty placeholder: a no-GPS record of \<^verbatim>\<open>AA\<close> with remote ID \<^verbatim>\<open>Y\<close>
  and no registry data has cached \<^verbatim>\<open>{}\<close> under (\<^verbatim>\<open>AA\<close>, \<^verbatim>\<open>Y\<close>), then a fix with remote
  ID \<^verbatim>\<open>Z\<close> has brought registry data. A fix-bearing record with remote ID \<^verbatim>\<open>W\<close> and no
  \<^verbatim>\<open>faa_data\<close>.
\<close>

definition det_z :: detection where
  "det_z = [''mac'' \<mapsto> PStr ''AA'', ''drone_lat'' \<mapsto> PNum 10, ''drone_long'' \<mapsto> PNum 20,
            ''basic_id'' \<mapsto> PStr ''Z'', ''faa_data'' \<mapsto> faa_x, ''last_update'' \<mapsto> PNum 900]"

definition state_p :: state where
  "state_p = \<lparr>tracked_pairs = [(KStr ''AA'', det_z)], detection_history = [det_z],
               FAA_CACHE = [((KStr ''AA'', KStr ''Y''), PDict []), ((KStr ''AA'', KStr ''Z''), faa_x)],
               cumulative_csv = [], effects = []\<rparr>"

definition det_w :: detection where
  "det_w = [''mac'' \<mapsto> PStr ''AA'', ''drone_lat'' \<mapsto> PNum 11, ''drone_long'' \<mapsto> PNum 21,
            ''basic_id'' \<mapsto> PStr ''W'']"

section \<open>Facts about update_detection\<close>

lemma update_detection_no_gps:
  "truthy (dict_get d ''mac'') \<Longrightarrow> key_of (dict_get d ''mac'') = Some k \<Longrightarrow> \<not> valid_drone d \<Longrightarrow>
   update_detection e d s = update_no_gps e k (dict_get d ''mac'') d s"
  by (simp add: update_detection_def)

lemma update_detection_gps:
  "truthy (dict_get d ''mac'') \<Longrightarrow> key_of (dict_get d ''mac'') = Some k \<Longrightarrow> valid_drone d \<Longrightarrow>
   update_detection e d s = update_gps e k (dict_get d ''mac'') d s"
  by (simp add: update_detection_def)

text \<open>What each step leaves alone.\<close>

lemma emit_fields:
  "tracked_pairs (emit es s) = tracked_pairs s"
  "detection_history (emit es s) = detection_history s"
  "FAA_CACHE (emit es s) = FAA_CACHE s"
  "cumulative_csv (emit es s) = cumulative_csv s"
  "effects (emit es s) = effects s @ es"
  by (simp_all add: emit_def)

lemma fire_webhook_fields:
  "tracked_pairs (fire_webhook e d s) = tracked_pairs s"
  "detection_history (fire_webhook e d s) = detection_history s"
  "FAA_CACHE (fire_webhook e d s) = FAA_CACHE s"
  "cumulative_csv (fire_webhook e d s) = cumulative_csv s"
  by (simp_all add: fire_webhook_def emit_fields)

lemma append_rows_fields:
  "tracked_pairs (append_rows e k mac d lat lon s) = tracked_pairs s"
  "detection_history (append_rows e k mac d lat lon s) = detection_history s"
  "FAA_CACHE (append_rows e k mac d lat lon s) = FAA_CACHE s"
  "cumulative_csv (append_rows e k mac d lat lon s) = cumulative_csv s @ [make_row e 1 k mac d lat lon]"
  "effects (append_rows e k mac d lat lon s) =
     effects s @ [CsvAppend SessionCsv (make_row e 0 k mac d lat lon),
                  CsvAppend CumulativeCsv (make_row e 1 k mac d lat lon)]"
  by (simp_all add: append_rows_def emit_fields)

lemma regen_cumulative_fields:
  assumes "regen_cumulative e s = Inr s'"
  shows "tracked_pairs s' = tracked_pairs s" "detection_history s' = detection_history s"
    "FAA_CACHE s' = FAA_CACHE s" "cumulative_csv s' = cumulative_csv s"
    "effects s' = effects s @ [KmlRegen CumulativeKml]"
  using assms by (auto simp: regen_cumulative_def emit_fields split: sum.splits)

lemma regen_session_fields:
  assumes "regen_session e s = Inr s'"
  shows "tracked_pairs s' = tracked_pairs s" "detection_history s' = detection_history s"
    "FAA_CACHE s' = FAA_CACHE s" "cumulative_csv s' = cumulative_csv s"
    "effects s' = effects s @ [KmlRegen SessionKml]"
  using assms by (auto simp: regen_session_def emit_fields split: sum.splits)

lemma write_to_faa_cache_fields:
  assumes "write_to_faa_cache mac rid f s = Inr s'"
  shows "tracked_pairs s' = tracked_pairs s" "detection_history s' = detection_history s"
    "cumulative_csv s' = cumulative_csv s"
    "effects s' = effects s @ [CacheFileAppend mac rid f]"
    "\<exists>km kr. key_of mac = Some km \<and> key_of rid = Some kr \<and>
             FAA_CACHE s' = AList.update (km, kr) f (FAA_CACHE s)"
  using assms by (auto simp: write_to_faa_cache_def emit_fields split: option.splits)

lemma cache_write_back_fields:
  assumes "cache_write_back mac d s = Inr s'"
  shows "tracked_pairs s' = tracked_pairs s" "detection_history s' = detection_history s"
    "cumulative_csv s' = cumulative_csv s"
    "filter is_webhook_post (effects s') = filter is_webhook_post (effects s)"
  using assms write_to_faa_cache_fields [of mac _ _ s s']
  by (auto simp: cache_write_back_def split: option.splits)

text \<open>
  The steps of the no-GPS branch after the CSV rows: they keep the tracked entries, the
  history and the cumulative CSV, and only add to the effect log.
\<close>

lemma no_gps_tail:
  assumes "(case regen_cumulative e s3 of
              Inl err \<Rightarrow> (Raises err, s3)
            | Inr s4 \<Rightarrow>
                (case (if c then write_to_faa_cache mac rid f s4 else Inr s4) of
                   Inl err \<Rightarrow> (Raises err, s4)
                 | Inr s5 \<Rightarrow>
                     (case regen_session e s5 of
                        Inl err \<Rightarrow> (Raises err, s5)
                      | Inr s6 \<Rightarrow> (Returns, s6)))) = (r, s')"
  shows "tracked_pairs s' = tracked_pairs s3" "detection_history s' = detection_history s3"
    "cumulative_csv s' = cumulative_csv s3" "\<exists>rest. effects s' = effects s3 @ rest"
    "r \<noteq> Blocked"
proof -
  have "tracked_pairs s' = tracked_pairs s3 \<and> detection_history s' = detection_history s3 \<and>
        cumulative_csv s' = cumulative_csv s3 \<and> (\<exists>rest. effects s' = effects s3 @ rest) \<and>
        r \<noteq> Blocked"
  proof (cases "regen_cumulative e s3")
    case (Inl err)
    then show ?thesis using assms by auto
  next
    case s4: (Inr s4)
    note f4 = regen_cumulative_fields [OF s4]
    show ?thesis
    proof (cases "if c then write_to_faa_cache mac rid f s4 else Inr s4")
      case (Inl err)
      then show ?thesis using assms s4 f4 by auto
    next
      case s5: (Inr s5)
      have f5: "tracked_pairs s5 = tracked_pairs s4" "detection_history s5 = detection_history s4"
        "cumulative_csv s5 = cumulative_csv s4" "\<exists>rest. effects s5 = effects s4 @ rest"
        using s5 write_to_faa_cache_fields [of mac rid f s4 s5] by (auto split: if_splits)
      show ?thesis
      proof (cases "regen_session e s5")
        case (Inl err)
        then show ?thesis using assms s4 s5 f4 f5 by auto
      next
        case s6: (Inr s6)
        note f6 = regen_session_fields [OF s6]
        have "r = Returns" "s' = s6" using assms s4 s5 s6 by auto
        then show ?thesis using f4 f5 f6 by auto
      qed
    qed
  qed
  then show "tracked_pairs s' = tracked_pairs s3" "detection_history s' = detection_history s3"
    "cumulative_csv s' = cumulative_csv s3" "\<exists>rest. effects s' = effects s3 @ rest"
    "r \<noteq> Blocked"
    by blast+
qed

text \<open>
  The no-GPS branch: whatever becomes of the post and of the later steps, the record has
  replaced the tracked entry and is the last of the history.
\<close>

lemma no_gps_stored:
  "tracked_pairs (snd (update_no_gps e k mac d s)) = AList.update k d (tracked_pairs s) \<and>
   detection_history (snd (update_no_gps e k mac d s)) = detection_history s @ [d]"
proof (cases "truthy (WEBHOOK_URL e) \<and> post_result e = PostPending")
  case True
  then show ?thesis by (simp add: update_no_gps_def Let_def emit_fields)
next
  case False
  let ?s1 = "s\<lparr>tracked_pairs := AList.update k d (tracked_pairs s),
                 detection_history := detection_history s @ [d]\<rparr>"
  let ?s3 = "append_rows e k mac d (dict_get_default d ''drone_lat'' (PNum 0))
               (dict_get_default d ''drone_long'' (PNum 0)) (fire_webhook e d ?s1)"
  obtain r s' where rs: "update_no_gps e k mac d s = (r, s')" by (cases "update_no_gps e k mac d s")
  then have "(case regen_cumulative e ?s3 of
              Inl err \<Rightarrow> (Raises err, ?s3)
            | Inr s4 \<Rightarrow>
                (case (if truthy (dict_get d ''basic_id'')
                       then write_to_faa_cache mac (dict_get d ''basic_id'')
                              (dict_get_default d ''faa_data'' (PDict [])) s4
                       else Inr s4) of
                   Inl err \<Rightarrow> (Raises err, s4)
                 | Inr s5 \<Rightarrow>
                     (case regen_session e s5 of
                        Inl err \<Rightarrow> (Raises err, s5)
                      | Inr s6 \<Rightarrow> (Returns, s6)))) = (r, s')"
    using False unfolding update_no_gps_def Let_def by simp
  from no_gps_tail(1,2) [OF this] show ?thesis
    by (simp add: rs append_rows_fields fire_webhook_fields)
qed

lemma no_gps_tracked:
  "tracked_pairs (snd (update_no_gps e k mac d s)) = AList.update k d (tracked_pairs s)"
  using no_gps_stored by blast

lemma no_gps_history:
  "detection_history (snd (update_no_gps e k mac d s)) = detection_history s @ [d]"
  using no_gps_stored by blast

lemma exact_lookup_fields:
  "exact_lookup k d s = Inr d2 \<Longrightarrow> x \<noteq> ''faa_data'' \<Longrightarrow> d2 x = d x"
  by (auto simp: exact_lookup_def Let_def split: if_splits option.splits)

lemma mac_fallback_fields: "x \<noteq> ''faa_data'' \<Longrightarrow> mac_fallback k d s x = d x"
  by (simp add: mac_fallback_def split: option.splits)

lemma prev_fallback_fields: "x \<noteq> ''faa_data'' \<Longrightarrow> prev_fallback prev d x = d x"
  by (simp add: prev_fallback_def split: option.splits)

lemma merge_detection_fields:
  assumes "merge_detection e k d s = Inr d3" and "x \<noteq> ''faa_data''"
  shows "d3 x = carry_basic_id (map_of (tracked_pairs s) k) (normalise_fields e d) x"
proof -
  let ?prev = "map_of (tracked_pairs s) k"
  let ?d1 = "carry_basic_id ?prev (normalise_fields e d)"
  from assms(1) obtain d2 where d2: "exact_lookup k ?d1 s = Inr d2"
    and d3: "d3 = prev_fallback ?prev (mac_fallback k d2 s)"
    by (auto simp: merge_detection_def Let_def split: sum.splits)
  have "d3 x = d2 x"
    using assms(2) by (simp add: d3 prev_fallback_fields mac_fallback_fields)
  also have "\<dots> = ?d1 x"
    using d2 assms(2) by (rule exact_lookup_fields)
  finally show ?thesis .
qed

lemma merge_detection_last_update:
  assumes "merge_detection e k d s = Inr d3"
  shows "d3 ''last_update'' = Some (PNum (time_time e))"
proof -
  have "d3 ''last_update'' =
        carry_basic_id (map_of (tracked_pairs s) k) (normalise_fields e d) ''last_update''"
    using assms by (rule merge_detection_fields) simp
  then show ?thesis
    by (simp add: carry_basic_id_def normalise_fields_def split: option.splits)
qed

lemma exact_lookup_returns:
  "hashable (dict_get d ''basic_id'') \<Longrightarrow> \<exists>d2. exact_lookup k d s = Inr d2"
  by (cases "key_of (dict_get d ''basic_id'')")
     (simp_all add: exact_lookup_def Let_def hashable_def split: option.splits)

lemma carry_basic_id_value:
  "dict_get (carry_basic_id prev d) ''basic_id'' = dict_get d ''basic_id'' \<or>
   (\<exists>p. prev = Some p \<and> dict_get (carry_basic_id prev d) ''basic_id'' = dict_get p ''basic_id'')"
  by (cases prev) (simp_all add: carry_basic_id_def dict_get_def dict_get_default_def)

lemma normalise_basic_id: "dict_get (normalise_fields e d) ''basic_id'' = dict_get d ''basic_id''"
  by (simp add: normalise_fields_def dict_get_def dict_get_default_def)

lemma merge_detection_returns:
  assumes "hashable (dict_get (carry_basic_id (map_of (tracked_pairs s) k) (normalise_fields e d)) ''basic_id'')"
  shows "\<exists>d3. merge_detection e k d s = Inr d3"
proof -
  let ?d1 = "carry_basic_id (map_of (tracked_pairs s) k) (normalise_fields e d)"
  obtain d2 where "exact_lookup k ?d1 s = Inr d2"
    using exact_lookup_returns [OF assms] by blast
  then show ?thesis
    by (simp add: merge_detection_def Let_def)
qed

lemma hashable_carried:
  assumes "hashable (dict_get d ''basic_id'')"
    and "\<And>p. prev = Some p \<Longrightarrow> hashable (dict_get p ''basic_id'')"
  shows "hashable (dict_get (carry_basic_id prev (normalise_fields e d)) ''basic_id'')"
  using carry_basic_id_value [of prev "normalise_fields e d"] assms
  by (auto simp: normalise_basic_id)

lemma dict_get_eq: "d x = d' x \<Longrightarrow> dict_get d x = dict_get d' x"
  by (simp add: dict_get_def dict_get_default_def)

lemma hashable_default:
  "hashable (dict_get d ''basic_id'') \<Longrightarrow> hashable (dict_get_default d ''basic_id'' (PStr ''''))"
  by (cases "d ''basic_id''") (simp_all add: dict_get_def dict_get_default_def hashable_def)

text \<open>
  The two regenerations that end both branches: they change nothing but the effect log,
  and the call returns unless one of them raises.
\<close>

lemma regen_tail:
  assumes "(case regen_cumulative e s3 of
              Inl err \<Rightarrow> (Raises err, s3)
            | Inr s4 \<Rightarrow>
                (case regen_session e s4 of
                   Inl err \<Rightarrow> (Raises err, s4)
                 | Inr s5 \<Rightarrow> (Returns, s5))) = (r, s')"
  shows "tracked_pairs s' = tracked_pairs s3" "detection_history s' = detection_history s3"
    "FAA_CACHE s' = FAA_CACHE s3" "cumulative_csv s' = cumulative_csv s3"
    "filter is_webhook_post (effects s') = filter is_webhook_post (effects s3)"
    "r = (case regen_error e s3 of None \<Rightarrow> Returns | Some err \<Rightarrow> Raises err)"
    "regen_error e s' = regen_error e s3"
  using assms
  by (auto simp: regen_cumulative_def regen_session_def regen_error_def emit_fields
        split: sum.splits)

text \<open>
  What a GPS update leaves behind when no hashing fails: the merged record is stored
  whether or not a regeneration raises afterwards.
\<close>

lemma update_gps_stored:
  assumes k: "key_of mac = Some k"
    and m: "merge_detection e k d s = Inr d3"
    and h: "hashable (dict_get d3 ''basic_id'')"
  shows "tracked_pairs (snd (update_gps e k mac d s)) = AList.update k d3 (tracked_pairs s)"
    and "detection_history (snd (update_gps e k mac d s)) = detection_history s @ [d3]"
    and "FAA_CACHE (snd (update_gps e k mac d s)) =
           (case d3 ''faa_data'' of
              None \<Rightarrow> FAA_CACHE s
            | Some f \<Rightarrow>
                AList.update (k, the (key_of (dict_get_default d3 ''basic_id'' (PStr '''')))) f
                  (FAA_CACHE s))"
    and "fst (update_gps e k mac d s) =
           (case regen_error e (snd (update_gps e k mac d s)) of
              None \<Rightarrow> Returns
            | Some err \<Rightarrow> Raises err)"
    and "filter is_webhook_post (effects (snd (update_gps e k mac d s)))
           = filter is_webhook_post (effects s)"
proof -
  obtain kr where kr: "key_of (dict_get_default d3 ''basic_id'' (PStr '''')) = Some kr"
    using hashable_default [OF h] by (auto simp: hashable_def)
  have "\<exists>s1. cache_write_back mac d3 s = Inr s1 \<and>
          FAA_CACHE s1 = (case d3 ''faa_data'' of None \<Rightarrow> FAA_CACHE s
                          | Some f \<Rightarrow> AList.update (k, kr) f (FAA_CACHE s))"
    by (cases "d3 ''faa_data''")
       (simp_all add: cache_write_back_def write_to_faa_cache_def k kr emit_fields)
  then obtain s1 where s1: "cache_write_back mac d3 s = Inr s1"
    and c1: "FAA_CACHE s1 = (case d3 ''faa_data'' of None \<Rightarrow> FAA_CACHE s
                             | Some f \<Rightarrow> AList.update (k, kr) f (FAA_CACHE s))"
    by blast
  note f1 = cache_write_back_fields [OF s1]
  let ?s2 = "s1\<lparr>tracked_pairs := AList.update k d3 (tracked_pairs s1),
                 detection_history := detection_history s1 @ [d3]\<rparr>"
  let ?s3 = "append_rows e k mac d3 (dict_get_default d3 ''drone_lat'' (PStr ''''))
               (dict_get_default d3 ''drone_long'' (PStr '''')) ?s2"
  obtain r s' where rs: "update_gps e k mac d s = (r, s')" by (cases "update_gps e k mac d s")
  then have tail: "(case regen_cumulative e ?s3 of
              Inl err \<Rightarrow> (Raises err, ?s3)
            | Inr s4 \<Rightarrow>
                (case regen_session e s4 of
                   Inl err \<Rightarrow> (Raises err, s4)
                 | Inr s5 \<Rightarrow> (Returns, s5))) = (r, s')"
    by (simp add: update_gps_def m s1 Let_def)
  note t = regen_tail [OF tail]
  show "tracked_pairs (snd (update_gps e k mac d s)) = AList.update k d3 (tracked_pairs s)"
    by (simp add: rs t(1) append_rows_fields f1)
  show "detection_history (snd (update_gps e k mac d s)) = detection_history s @ [d3]"
    by (simp add: rs t(2) append_rows_fields f1)
  show "FAA_CACHE (snd (update_gps e k mac d s)) =
           (case d3 ''faa_data'' of
              None \<Rightarrow> FAA_CACHE s
            | Some f \<Rightarrow>
                AList.update (k, the (key_of (dict_get_default d3 ''basic_id'' (PStr '''')))) f
                  (FAA_CACHE s))"
    by (simp add: rs t(3) append_rows_fields c1 kr split: option.splits)
  show "fst (update_gps e k mac d s) =
           (case regen_error e (snd (update_gps e k mac d s)) of
              None \<Rightarrow> Returns
            | Some err \<Rightarrow> Raises err)"
    by (simp add: rs t(6) t(7))
  show "filter is_webhook_post (effects (snd (update_gps e k mac d s)))
           = filter is_webhook_post (effects s)"
    by (simp add: rs t(5) append_rows_fields f1)
qed

text \<open>When hashing fails, the exception escapes before anything is stored.\<close>

lemma update_gps_outcomes:
  "update_gps e k mac d s = (Raises TypeError, s) \<or>
   (\<exists>d3. merge_detection e k d s = Inr d3 \<and>
         fst (update_gps e k mac d s) =
           (case regen_error e (snd (update_gps e k mac d s)) of
              None \<Rightarrow> Returns
            | Some err \<Rightarrow> Raises err) \<and>
         tracked_pairs (snd (update_gps e k mac d s)) = AList.update k d3 (tracked_pairs s) \<and>
         detection_history (snd (update_gps e k mac d s)) = detection_history s @ [d3])"
proof (cases "merge_detection e k d s")
  case (Inl err)
  then have "err = TypeError"
    by (auto simp: merge_detection_def exact_lookup_def Let_def
          split: sum.splits if_splits option.splits)
  then show ?thesis using Inl by (simp add: update_gps_def)
next
  case (Inr d3)
  show ?thesis
  proof (cases "cache_write_back mac d3 s")
    case (Inl err)
    then have "err = TypeError"
      by (auto simp: cache_write_back_def write_to_faa_cache_def split: option.splits)
    then show ?thesis using Inl Inr by (simp add: update_gps_def)
  next
    case r: (Inr s1)
    note f1 = cache_write_back_fields [OF r]
    let ?s2 = "s1\<lparr>tracked_pairs := AList.update k d3 (tracked_pairs s1),
                   detection_history := detection_history s1 @ [d3]\<rparr>"
    let ?s3 = "append_rows e k mac d3 (dict_get_default d3 ''drone_lat'' (PStr ''''))
                 (dict_get_default d3 ''drone_long'' (PStr '''')) ?s2"
    obtain x s' where rs: "update_gps e k mac d s = (x, s')" by (cases "update_gps e k mac d s")
    then have tail: "(case regen_cumulative e ?s3 of
                Inl err \<Rightarrow> (Raises err, ?s3)
              | Inr s4 \<Rightarrow>
                  (case regen_session e s4 of
                     Inl err \<Rightarrow> (Raises err, s4)
                   | Inr s5 \<Rightarrow> (Returns, s5))) = (x, s')"
      by (simp add: update_gps_def Inr r Let_def)
    note t = regen_tail [OF tail]
    show ?thesis
      using Inr by (simp add: rs t append_rows_fields f1)
  qed
qed

lemma cache_any_for_mac_find:
  "cache_any_for_mac k cache = map_option snd (List.find (\<lambda>((c_mac, c_rid), f). c_mac = k) cache)"
  by (induction k cache rule: cache_any_for_mac.induct) simp_all

lemma resolve_chain:
  assumes d1: "d1 ''faa_data'' = None" and d2: "exact_lookup k d1 s = Inr d2"
  shows "prev_fallback prev (mac_fallback k d2 s) ''faa_data'' =
         spec_resolve k (dict_get d1 ''basic_id'') prev (FAA_CACHE s)"
proof (cases "truthy (dict_get d1 ''basic_id'')")
  case False
  then have "d2 = d1" using d2 by (simp add: exact_lookup_def Let_def)
  then show ?thesis
    using False d1
    by (simp add: spec_resolve_def prev_fallback_def mac_fallback_def cache_any_for_mac_find
          split: option.splits)
next
  case True
  then obtain kr where kr: "key_of (dict_get d1 ''basic_id'') = Some kr"
    using d2 by (auto simp: exact_lookup_def Let_def split: option.splits)
  show ?thesis
  proof (cases "map_of (FAA_CACHE s) (k, kr)")
    case None
    then have "d2 = d1" using d2 True kr by (simp add: exact_lookup_def Let_def)
    then show ?thesis
      using True kr None d1
      by (simp add: spec_resolve_def prev_fallback_def mac_fallback_def cache_any_for_mac_find
            split: option.splits)
  next
    case (Some f)
    then have "d2 = d1(''faa_data'' \<mapsto> f)"
      using d2 True kr by (simp add: exact_lookup_def Let_def)
    then show ?thesis
      using True kr Some
      by (simp add: spec_resolve_def prev_fallback_def mac_fallback_def)
  qed
qed

lemma merge_detection_faa:
  assumes m: "merge_detection e k d s = Inr d3" and nofaa: "d ''faa_data'' = None"
  shows "d3 ''faa_data'' =
         spec_resolve k (dict_get (carry_basic_id (map_of (tracked_pairs s) k) (normalise_fields e d)) ''basic_id'')
           (map_of (tracked_pairs s) k) (FAA_CACHE s)"
proof -
  let ?prev = "map_of (tracked_pairs s) k"
  let ?d1 = "carry_basic_id ?prev (normalise_fields e d)"
  have d1: "?d1 ''faa_data'' = None"
    using nofaa by (simp add: carry_basic_id_def normalise_fields_def split: option.splits)
  from m obtain d2 where d2: "exact_lookup k ?d1 s = Inr d2"
    and d3: "d3 = prev_fallback ?prev (mac_fallback k d2 s)"
    by (auto simp: merge_detection_def Let_def split: sum.splits)
  show ?thesis
    unfolding d3 using d1 d2 by (rule resolve_chain)
qed

lemma live_field_eq:
  "tracked_pairs s' = AList.update k d (tracked_pairs s) \<Longrightarrow> live_field s' k x = d x"
  by (simp add: live_field_def update_conv')

lemma live_hashable:
  assumes "\<forall>b. live_field s k ''basic_id'' = Some b \<longrightarrow> hashable b"
    and "map_of (tracked_pairs s) k = Some p"
  shows "hashable (dict_get p ''basic_id'')"
  using assms
  by (cases "p ''basic_id''") (simp_all add: live_field_def dict_get_def dict_get_default_def hashable_def)

text \<open>The GPS branch returns when the remote IDs it may hash are hashable.\<close>

lemma gps_update_returns:
  assumes mac: "truthy (dict_get d ''mac'')" "key_of (dict_get d ''mac'') = Some k"
    and gps: "valid_drone d"
    and h1: "hashable (dict_get d ''basic_id'')"
    and h2: "\<forall>b. live_field s k ''basic_id'' = Some b \<longrightarrow> hashable b"
  obtains d3 where "merge_detection e k d s = Inr d3"
    and "hashable (dict_get d3 ''basic_id'')"
    and "update_detection e d s = update_gps e k (dict_get d ''mac'') d s"
proof -
  let ?prev = "map_of (tracked_pairs s) k"
  let ?d1 = "carry_basic_id ?prev (normalise_fields e d)"
  have hd1: "hashable (dict_get ?d1 ''basic_id'')"
    using h1 live_hashable [OF h2] by (rule hashable_carried)
  then obtain d3 where m: "merge_detection e k d s = Inr d3"
    using merge_detection_returns by blast
  have "d3 ''basic_id'' = ?d1 ''basic_id''"
    using m by (rule merge_detection_fields) simp
  then have "hashable (dict_get d3 ''basic_id'')"
    using hd1 by (simp add: dict_get_def dict_get_default_def)
  moreover have "update_detection e d s = update_gps e k (dict_get d ''mac'') d s"
    using mac gps by (rule update_detection_gps)
  ultimately show ?thesis using m that by blast
qed

text \<open>What the tracked entry of a mac holds after a GPS update, field by field.\<close>

lemma gps_live_field:
  assumes "truthy (dict_get d ''mac'')" and "key_of (dict_get d ''mac'') = Some k"
    and "valid_drone d" and "merge_detection e k d s = Inr d3"
    and "hashable (dict_get d3 ''basic_id'')"
  shows "live_field (snd (update_detection e d s)) k x = d3 x"
    and "FAA_CACHE (snd (update_detection e d s)) =
           (case d3 ''faa_data'' of
              None \<Rightarrow> FAA_CACHE s
            | Some f \<Rightarrow>
                AList.update (k, the (key_of (dict_get_default d3 ''basic_id'' (PStr '''')))) f
                  (FAA_CACHE s))"
proof -
  have u: "update_detection e d s = update_gps e k (dict_get d ''mac'') d s"
    using assms(1,2,3) by (rule update_detection_gps)
  show "live_field (snd (update_detection e d s)) k x = d3 x"
    unfolding u using update_gps_stored(1) [OF assms(2,4,5)] by (simp add: live_field_eq)
  show "FAA_CACHE (snd (update_detection e d s)) =
           (case d3 ''faa_data'' of
              None \<Rightarrow> FAA_CACHE s
            | Some f \<Rightarrow>
                AList.update (k, the (key_of (dict_get_default d3 ''basic_id'' (PStr '''')))) f
                  (FAA_CACHE s))"
    unfolding u using update_gps_stored(3) [OF assms(2,4,5)] .
qed

lemma find_SomeD: "List.find P xs = Some x \<Longrightarrow> P x \<and> x \<in> set xs"
  by (induction xs) (auto split: if_splits)

lemma spec_resolve_prev:
  assumes "p ''faa_data'' = Some f"
  shows "\<exists>f'. spec_resolve k rid (Some p) cache = Some f' \<and>
              (f' = f \<or> (\<exists>kr. ((k, kr), f') \<in> set cache))"
proof (cases "if truthy rid then Option.bind (key_of rid) (\<lambda>kr. map_of cache (k, kr)) else None")
  case (Some f')
  then obtain kr where "map_of cache (k, kr) = Some f'"
    by (auto split: if_splits simp: bind_eq_Some_conv)
  then have "((k, kr), f') \<in> set cache" by (rule map_of_SomeD)
  then show ?thesis using Some by (auto simp: spec_resolve_def)
next
  case None
  show ?thesis
  proof (cases "List.find (\<lambda>((c_mac, c_rid), f). c_mac = k) cache")
    case N2: None
    then show ?thesis using None assms by (simp add: spec_resolve_def)
  next
    case (Some x)
    then have "x \<in> set cache \<and> fst (fst x) = k"
      by (auto dest: find_SomeD)
    then have "((k, snd (fst x)), snd x) \<in> set cache"
      by (metis prod.collapse)
    then show ?thesis using None Some by (auto simp: spec_resolve_def)
  qed
qed

text \<open>
  The effect log of a no-GPS update whose post has come back: the post, the logged error if
  it raised, then the two CSV rows. While the post has not come back, the call has stored
  the record and done nothing else.
\<close>

lemma no_gps_effects:
  assumes "truthy (WEBHOOK_URL e)" and "post_result e \<noteq> PostPending"
  shows "fst (update_no_gps e k mac d s) \<noteq> Blocked \<and>
         (\<exists>rest. effects (snd (update_no_gps e k mac d s)) =
           effects s @
           WebhookPost (WEBHOOK_URL e) d 5 # (if post_result e = PostRaises then [LogError] else []) @
           [CsvAppend SessionCsv
              (make_row e 0 k mac d (dict_get_default d ''drone_lat'' (PNum 0))
                 (dict_get_default d ''drone_long'' (PNum 0))),
            CsvAppend CumulativeCsv
              (make_row e 1 k mac d (dict_get_default d ''drone_lat'' (PNum 0))
                 (dict_get_default d ''drone_long'' (PNum 0)))] @ rest)"
proof -
  let ?s1 = "s\<lparr>tracked_pairs := AList.update k d (tracked_pairs s),
                 detection_history := detection_history s @ [d]\<rparr>"
  let ?s3 = "append_rows e k mac d (dict_get_default d ''drone_lat'' (PNum 0))
               (dict_get_default d ''drone_long'' (PNum 0)) (fire_webhook e d ?s1)"
  obtain r s' where rs: "update_no_gps e k mac d s = (r, s')" by (cases "update_no_gps e k mac d s")
  then have "(case regen_cumulative e ?s3 of
              Inl err \<Rightarrow> (Raises err, ?s3)
            | Inr s4 \<Rightarrow>
                (case (if truthy (dict_get d ''basic_id'')
                       then write_to_faa_cache mac (dict_get d ''basic_id'')
                              (dict_get_default d ''faa_data'' (PDict [])) s4
                       else Inr s4) of
                   Inl err \<Rightarrow> (Raises err, s4)
                 | Inr s5 \<Rightarrow>
                     (case regen_session e s5 of
                        Inl err \<Rightarrow> (Raises err, s5)
                      | Inr s6 \<Rightarrow> (Returns, s6)))) = (r, s')"
    using assms(2) unfolding update_no_gps_def Let_def by simp
  from no_gps_tail(4,5) [OF this] obtain rest where "effects s' = effects ?s3 @ rest" and "r \<noteq> Blocked"
    by blast
  then show ?thesis
    using assms(1) by (simp add: rs append_rows_fields fire_webhook_def emit_fields)
qed

lemma no_gps_blocked:
  assumes "truthy (WEBHOOK_URL e)" and "post_result e = PostPending"
  shows "update_no_gps e k mac d s =
           (Blocked, emit [WebhookPost (WEBHOOK_URL e) d 5]
              (s\<lparr>tracked_pairs := AList.update k d (tracked_pairs s),
                 detection_history := detection_history s @ [d]\<rparr>))"
  using assms by (simp add: update_no_gps_def Let_def)

text \<open>
  How a no-GPS update ends once the post has come back: by what the steps after the post
  do, whether the post raised or not.
\<close>

lemma no_gps_outcome:
  assumes "\<not> (truthy (WEBHOOK_URL e) \<and> post_result e = PostPending)"
  shows "fst (update_no_gps e k mac d s) =
           (case generate_cumulative_kml (python e)
                   (cumulative_csv s @
                    [make_row e 1 k mac d (dict_get_default d ''drone_lat'' (PNum 0))
                       (dict_get_default d ''drone_long'' (PNum 0))]) of
              Inl err \<Rightarrow> Raises err
            | Inr cdoc \<Rightarrow>
                if truthy (dict_get d ''basic_id'') \<and>
                   (key_of mac = None \<or> key_of (dict_get d ''basic_id'') = None)
                then Raises TypeError
                else (case generate_kml (python e) (detection_history s @ [d]) of
                        Inl err \<Rightarrow> Raises err
                      | Inr doc \<Rightarrow> Returns))"
  using assms
  by (auto simp: update_no_gps_def Let_def emit_fields fire_webhook_fields append_rows_fields
        regen_cumulative_def regen_session_def write_to_faa_cache_def
        split: sum.splits option.splits)

lemma gps_effects:
  "filter is_webhook_post (effects (snd (update_gps e k mac d s)))
   = filter is_webhook_post (effects s)"
proof (cases "merge_detection e k d s")
  case (Inl err)
  then show ?thesis by (simp add: update_gps_def)
next
  case (Inr d3)
  show ?thesis
  proof (cases "cache_write_back mac d3 s")
    case (Inl err)
    then show ?thesis using Inr by (simp add: update_gps_def)
  next
    case r: (Inr s1)
    note f1 = cache_write_back_fields [OF r]
    let ?s2 = "s1\<lparr>tracked_pairs := AList.update k d3 (tracked_pairs s1),
                   detection_history := detection_history s1 @ [d3]\<rparr>"
    let ?s3 = "append_rows e k mac d3 (dict_get_default d3 ''drone_lat'' (PStr ''''))
                 (dict_get_default d3 ''drone_long'' (PStr '''')) ?s2"
    obtain x s' where rs: "update_gps e k mac d s = (x, s')" by (cases "update_gps e k mac d s")
    then have tail: "(case regen_cumulative e ?s3 of
                Inl err \<Rightarrow> (Raises err, ?s3)
              | Inr s4 \<Rightarrow>
                  (case regen_session e s4 of
                     Inl err \<Rightarrow> (Raises err, s4)
                   | Inr s5 \<Rightarrow> (Returns, s5))) = (x, s')"
      by (simp add: update_gps_def Inr r Let_def)
    show ?thesis
      by (simp add: rs regen_tail(5) [OF tail] append_rows_fields f1)
  qed
qed

section \<open>Facts about api_get_faa\<close>

lemma scan_tracked_by_basic_id_find:
  "scan_tracked_by_basic_id ident tp =
   Option.bind
     (List.find (\<lambda>(mac, det). dict_get det ''basic_id'' = PStr ident \<and> det ''faa_data'' \<noteq> None) tp)
     (\<lambda>(mac, det). det ''faa_data'')"
  by (induction ident tp rule: scan_tracked_by_basic_id.induct) auto

lemma scan_cache_by_rid_find:
  "scan_cache_by_rid ident cache =
   map_option snd (List.find (\<lambda>((c_mac, c_rid), f). c_rid = KStr ident) cache)"
  by (induction ident cache rule: scan_cache_by_rid.induct) simp_all

lemma scan_cache_by_mac_find:
  "scan_cache_by_mac ident cache =
   map_option snd (List.find (\<lambda>((c_mac, c_rid), f). c_mac = KStr ident) cache)"
  by (induction ident cache rule: scan_cache_by_mac.induct) simp_all

lemma tracked_faa_live: "tracked_faa identifier s = live_by_mac identifier s"
  by (simp add: tracked_faa_def live_by_mac_def split: option.splits)

section \<open>Facts about api_paths\<close>

lemma map_of_setdefault_append:
  "map_of (setdefault_append k p ps) k' =
   (if k' = k then Some (lookup_path ps k @ [p]) else map_of ps k')"
  by (induction k p ps rule: setdefault_append.induct) (auto simp: lookup_path_def)

lemma add_point_lookup:
  assumes "hashable mac"
  shows "\<exists>ps'. add_point mac lat lon ps = Inr ps' \<and>
          (\<forall>k. map_of ps' k =
                (if ne_zero lat \<and> ne_zero lon \<and> key_of mac = Some k
                 then Some (lookup_path ps k @ [(lat, lon)]) else map_of ps k))"
  using assms
  by (auto simp: add_point_def hashable_def map_of_setdefault_append)

lemma history_points_Cons:
  "history_points la lo k (det # rest) =
   (if truthy (dict_get det ''mac'') \<and> key_of (dict_get det ''mac'') = Some k \<and>
       ne_zero (dict_get_default det la (PNum 0)) \<and> ne_zero (dict_get_default det lo (PNum 0))
    then [(dict_get_default det la (PNum 0), dict_get_default det lo (PNum 0))] else [])
   @ history_points la lo k rest"
  by (simp add: history_points_def)

lemma history_points_Nil: "history_points la lo k [] = []"
  by (simp add: history_points_def)

lemma paths_loop_lookup:
  assumes "\<forall>det \<in> set history. hashable (dict_get det ''mac'')"
  shows "\<exists>dp' pp'. paths_loop history (dp, pp) = Inr (dp', pp') \<and>
          (\<forall>k. map_of dp' k =
                (if history_points ''drone_lat'' ''drone_long'' k history = [] then map_of dp k
                 else Some (lookup_path dp k @ history_points ''drone_lat'' ''drone_long'' k history))) \<and>
          (\<forall>k. map_of pp' k =
                (if history_points ''pilot_lat'' ''pilot_long'' k history = [] then map_of pp k
                 else Some (lookup_path pp k @ history_points ''pilot_lat'' ''pilot_long'' k history)))"
  using assms
proof (induction history arbitrary: dp pp)
  case Nil
  then show ?case by (simp add: history_points_Nil)
next
  case (Cons det rest)
  have rest: "\<forall>det \<in> set rest. hashable (dict_get det ''mac'')"
    using Cons.prems by simp
  show ?case
  proof (cases "truthy (dict_get det ''mac'')")
    case False
    then have a: "paths_loop (det # rest) (dp, pp) = paths_loop rest (dp, pp)"
      by (simp add: Let_def)
    have b: "\<And>la lo k. history_points la lo k (det # rest) = history_points la lo k rest"
      using False by (simp add: history_points_Cons)
    show ?thesis
      unfolding a b by (rule Cons.IH [OF rest])
  next
    case True
    have h: "hashable (dict_get det ''mac'')" using Cons.prems by simp
    obtain dp1 where dp1: "add_point (dict_get det ''mac'') (dict_get_default det ''drone_lat'' (PNum 0))
                             (dict_get_default det ''drone_long'' (PNum 0)) dp = Inr dp1"
      and dp1_map: "\<And>k. map_of dp1 k =
                (if ne_zero (dict_get_default det ''drone_lat'' (PNum 0)) \<and>
                    ne_zero (dict_get_default det ''drone_long'' (PNum 0)) \<and>
                    key_of (dict_get det ''mac'') = Some k
                 then Some (lookup_path dp k @ [(dict_get_default det ''drone_lat'' (PNum 0),
                                                 dict_get_default det ''drone_long'' (PNum 0))])
                 else map_of dp k)"
      using add_point_lookup [OF h] by blast
    obtain pp1 where pp1: "add_point (dict_get det ''mac'') (dict_get_default det ''pilot_lat'' (PNum 0))
                             (dict_get_default det ''pilot_long'' (PNum 0)) pp = Inr pp1"
      and pp1_map: "\<And>k. map_of pp1 k =
                (if ne_zero (dict_get_default det ''pilot_lat'' (PNum 0)) \<and>
                    ne_zero (dict_get_default det ''pilot_long'' (PNum 0)) \<and>
                    key_of (dict_get det ''mac'') = Some k
                 then Some (lookup_path pp k @ [(dict_get_default det ''pilot_lat'' (PNum 0),
                                                 dict_get_default det ''pilot_long'' (PNum 0))])
                 else map_of pp k)"
      using add_point_lookup [OF h] by blast
    have step: "paths_loop (det # rest) (dp, pp) = paths_loop rest (dp1, pp1)"
      using True dp1 pp1 by (simp add: Let_def)
    obtain dp' pp' where r: "paths_loop rest (dp1, pp1) = Inr (dp', pp')"
      and d: "\<And>k. map_of dp' k =
                (if history_points ''drone_lat'' ''drone_long'' k rest = [] then map_of dp1 k
                 else Some (lookup_path dp1 k @ history_points ''drone_lat'' ''drone_long'' k rest))"
      and p: "\<And>k. map_of pp' k =
                (if history_points ''pilot_lat'' ''pilot_long'' k rest = [] then map_of pp1 k
                 else Some (lookup_path pp1 k @ history_points ''pilot_lat'' ''pilot_long'' k rest))"
      using Cons.IH [OF rest, of dp1 pp1] by blast
    have "\<forall>k. map_of dp' k =
                (if history_points ''drone_lat'' ''drone_long'' k (det # rest) = [] then map_of dp k
                 else Some (lookup_path dp k @ history_points ''drone_lat'' ''drone_long'' k (det # rest)))"
      using True by (simp add: d dp1_map history_points_Cons lookup_path_def)
    moreover have "\<forall>k. map_of pp' k =
                (if history_points ''pilot_lat'' ''pilot_long'' k (det # rest) = [] then map_of pp k
                 else Some (lookup_path pp k @ history_points ''pilot_lat'' ''pilot_long'' k (det # rest)))"
      using True by (simp add: p pp1_map history_points_Cons lookup_path_def)
    ultimately show ?thesis
      using step r by simp
  qed
qed

lemma dedupe_loop_collapse:
  "dedupe_loop rest (acc @ [p]) = acc @ collapse_runs (p # rest)"
proof (induction rest arbitrary: acc p)
  case Nil
  then show ?case by simp
next
  case (Cons q rest)
  show ?case
  proof (cases "point_eq q p")
    case True
    then show ?thesis using Cons.IH [of acc p] by simp
  next
    case False
    then show ?thesis using Cons.IH [of "acc @ [p]" q] by simp
  qed
qed

lemma dedupe_collapse: "dedupe path = collapse_runs path"
proof (cases path)
  case Nil
  then show ?thesis by (simp add: dedupe_def)
next
  case (Cons p rest)
  then show ?thesis using dedupe_loop_collapse [of rest "[]" p] by (simp add: dedupe_def)
qed

lemma collapse_runs_head: "\<exists>tl. collapse_runs (p # rest) = p # tl"
  by (induction rest arbitrary: p) auto

lemma collapse_runs_no_equal_neighbours: "no_equal_neighbours (collapse_runs path)"
proof (induction path rule: collapse_runs.induct)
  case (3 p q rest)
  show ?case
  proof (cases "point_eq q p")
    case True
    then show ?thesis using 3 by simp
  next
    case False
    obtain tl where "collapse_runs (q # rest) = q # tl"
      using collapse_runs_head by blast
    then show ?thesis using False 3 by simp
  qed
qed simp_all

lemma map_of_dedupe:
  "map_of (map (\<lambda>(k, ps). (k, f ps)) dp) k = map_option f (map_of dp k)"
  by (induction dp) auto

text \<open>The same without any assumption on the macs: the loop raises or gives these paths.\<close>

lemma add_point_outcomes:
  "add_point mac lat lon ps = Inl TypeError \<or>
   (\<exists>ps'. add_point mac lat lon ps = Inr ps' \<and>
          (\<forall>k. map_of ps' k =
                (if ne_zero lat \<and> ne_zero lon \<and> key_of mac = Some k
                 then Some (lookup_path ps k @ [(lat, lon)]) else map_of ps k)))"
  by (cases "key_of mac") (auto simp: add_point_def map_of_setdefault_append)

lemma paths_loop_outcomes:
  "paths_loop history (dp, pp) = Inl TypeError \<or>
   (\<exists>dp' pp'. paths_loop history (dp, pp) = Inr (dp', pp') \<and>
          (\<forall>k. map_of dp' k =
                (if history_points ''drone_lat'' ''drone_long'' k history = [] then map_of dp k
                 else Some (lookup_path dp k @ history_points ''drone_lat'' ''drone_long'' k history))) \<and>
          (\<forall>k. map_of pp' k =
                (if history_points ''pilot_lat'' ''pilot_long'' k history = [] then map_of pp k
                 else Some (lookup_path pp k @ history_points ''pilot_lat'' ''pilot_long'' k history))))"
proof (induction history arbitrary: dp pp)
  case Nil
  then show ?case by (simp add: history_points_Nil)
next
  case (Cons det rest)
  show ?case
  proof (cases "truthy (dict_get det ''mac'')")
    case False
    then have a: "paths_loop (det # rest) (dp, pp) = paths_loop rest (dp, pp)"
      by (simp add: Let_def)
    have b: "\<And>la lo k. history_points la lo k (det # rest) = history_points la lo k rest"
      using False by (simp add: history_points_Cons)
    show ?thesis
      unfolding a b by (rule Cons.IH)
  next
    case True
    let ?mac = "dict_get det ''mac''"
    let ?dlat = "dict_get_default det ''drone_lat'' (PNum 0)"
    let ?dlon = "dict_get_default det ''drone_long'' (PNum 0)"
    let ?plat = "dict_get_default det ''pilot_lat'' (PNum 0)"
    let ?plon = "dict_get_default det ''pilot_long'' (PNum 0)"
    show ?thesis
    proof (cases "add_point ?mac ?dlat ?dlon dp")
      case (Inl err)
      then have "err = TypeError"
        using add_point_outcomes [of ?mac ?dlat ?dlon dp] by auto
      then show ?thesis using Inl True by (simp add: Let_def)
    next
      case dp1: (Inr dp1)
      have dp1_map: "\<And>k. map_of dp1 k =
                (if ne_zero ?dlat \<and> ne_zero ?dlon \<and> key_of ?mac = Some k
                 then Some (lookup_path dp k @ [(?dlat, ?dlon)]) else map_of dp k)"
        using add_point_outcomes [of ?mac ?dlat ?dlon dp] dp1 by auto
      show ?thesis
      proof (cases "add_point ?mac ?plat ?plon pp")
        case (Inl err)
        then have "err = TypeError"
          using add_point_outcomes [of ?mac ?plat ?plon pp] by auto
        then show ?thesis using Inl True dp1 by (simp add: Let_def)
      next
        case pp1: (Inr pp1)
        have pp1_map: "\<And>k. map_of pp1 k =
                (if ne_zero ?plat \<and> ne_zero ?plon \<and> key_of ?mac = Some k
                 then Some (lookup_path pp k @ [(?plat, ?plon)]) else map_of pp k)"
          using add_point_outcomes [of ?mac ?plat ?plon pp] pp1 by auto
        have step: "paths_loop (det # rest) (dp, pp) = paths_loop rest (dp1, pp1)"
          using True dp1 pp1 by (simp add: Let_def)
        from Cons.IH [of dp1 pp1] show ?thesis
        proof
          assume "paths_loop rest (dp1, pp1) = Inl TypeError"
          then show ?thesis unfolding step by simp
        next
          assume "\<exists>dp' pp'. paths_loop rest (dp1, pp1) = Inr (dp', pp') \<and>
            (\<forall>k. map_of dp' k =
                (if history_points ''drone_lat'' ''drone_long'' k rest = [] then map_of dp1 k
                 else Some (lookup_path dp1 k @ history_points ''drone_lat'' ''drone_long'' k rest))) \<and>
            (\<forall>k. map_of pp' k =
                (if history_points ''pilot_lat'' ''pilot_long'' k rest = [] then map_of pp1 k
                 else Some (lookup_path pp1 k @ history_points ''pilot_lat'' ''pilot_long'' k rest)))"
          then obtain dp' pp' where r: "paths_loop rest (dp1, pp1) = Inr (dp', pp')"
            and d: "\<And>k. map_of dp' k =
                (if history_points ''drone_lat'' ''drone_long'' k rest = [] then map_of dp1 k
                 else Some (lookup_path dp1 k @ history_points ''drone_lat'' ''drone_long'' k rest))"
            and p: "\<And>k. map_of pp' k =
                (if history_points ''pilot_lat'' ''pilot_long'' k rest = [] then map_of pp1 k
                 else Some (lookup_path pp1 k @ history_points ''pilot_lat'' ''pilot_long'' k rest))"
            by blast
          have "\<forall>k. map_of dp' k =
                (if history_points ''drone_lat'' ''drone_long'' k (det # rest) = [] then map_of dp k
                 else Some (lookup_path dp k @ history_points ''drone_lat'' ''drone_long'' k (det # rest)))"
            using True by (simp add: d dp1_map history_points_Cons lookup_path_def)
          moreover have "\<forall>k. map_of pp' k =
                (if history_points ''pilot_lat'' ''pilot_long'' k (det # rest) = [] then map_of pp k
                 else Some (lookup_path pp k @ history_points ''pilot_lat'' ''pilot_long'' k (det # rest)))"
            using True by (simp add: p pp1_map history_points_Cons lookup_path_def)
          ultimately show ?thesis
            unfolding step using r by simp
        qed
      qed
    qed
  qed
qed

lemma paths_loop_returns:
  assumes "\<forall>det \<in> set history. hashable (dict_get det ''mac'')"
  shows "\<exists>acc'. paths_loop history (dp, pp) = Inr acc'"
  using paths_loop_lookup [OF assms, of dp pp] by blast

lemma api_paths_outcomes:
  "api_paths history = Inl TypeError \<or>
   (\<exists>drone_paths pilot_paths.
      api_paths history = Inr (drone_paths, pilot_paths) \<and>
      (\<forall>k. map_of drone_paths k =
            (if history_points ''drone_lat'' ''drone_long'' k history = [] then None
             else Some (collapse_runs (history_points ''drone_lat'' ''drone_long'' k history)))) \<and>
      (\<forall>k. map_of pilot_paths k =
            (if history_points ''pilot_lat'' ''pilot_long'' k history = [] then None
             else Some (collapse_runs (history_points ''pilot_lat'' ''pilot_long'' k history)))) \<and>
      (\<forall>(k, path) \<in> set drone_paths \<union> set pilot_paths. no_equal_neighbours path))"
  using paths_loop_outcomes [of history "[]" "[]"]
proof
  assume "paths_loop history ([], []) = Inl TypeError"
  then show ?thesis by (simp add: api_paths_def)
next
  assume "\<exists>dp' pp'. paths_loop history ([], []) = Inr (dp', pp') \<and>
          (\<forall>k. map_of dp' k =
                (if history_points ''drone_lat'' ''drone_long'' k history = [] then map_of [] k
                 else Some (lookup_path [] k @ history_points ''drone_lat'' ''drone_long'' k history))) \<and>
          (\<forall>k. map_of pp' k =
                (if history_points ''pilot_lat'' ''pilot_long'' k history = [] then map_of [] k
                 else Some (lookup_path [] k @ history_points ''pilot_lat'' ''pilot_long'' k history)))"
  then obtain dp pp where loop: "paths_loop history ([], []) = Inr (dp, pp)"
    and d: "\<And>k. map_of dp k =
                (if history_points ''drone_lat'' ''drone_long'' k history = [] then None
                 else Some (history_points ''drone_lat'' ''drone_long'' k history))"
    and p: "\<And>k. map_of pp k =
                (if history_points ''pilot_lat'' ''pilot_long'' k history = [] then None
                 else Some (history_points ''pilot_lat'' ''pilot_long'' k history))"
    by (auto simp: lookup_path_def)
  let ?dps = "map (\<lambda>(k, ps). (k, dedupe ps)) dp"
  let ?pps = "map (\<lambda>(k, ps). (k, dedupe ps)) pp"
  have "api_paths history = Inr (?dps, ?pps)"
    by (simp add: api_paths_def loop)
  moreover have "\<forall>k. map_of ?dps k =
                 (if history_points ''drone_lat'' ''drone_long'' k history = [] then None
                  else Some (collapse_runs (history_points ''drone_lat'' ''drone_long'' k history)))"
    by (simp add: map_of_dedupe d dedupe_collapse)
  moreover have "\<forall>k. map_of ?pps k =
                 (if history_points ''pilot_lat'' ''pilot_long'' k history = [] then None
                  else Some (collapse_runs (history_points ''pilot_lat'' ''pilot_long'' k history)))"
    by (simp add: map_of_dedupe p dedupe_collapse)
  moreover have "\<forall>(k, path) \<in> set ?dps \<union> set ?pps. no_equal_neighbours path"
    by (auto simp: dedupe_collapse collapse_runs_no_equal_neighbours)
  ultimately show ?thesis by blast
qed

section \<open>Facts about the history\<close>

lemma carry_other_fields: "x \<noteq> ''basic_id'' \<Longrightarrow> carry_basic_id prev d x = d x"
  by (simp add: carry_basic_id_def split: option.splits)

lemma merge_detection_stored_fields:
  assumes "merge_detection e k d s = Inr d3"
  shows "dict_get d3 ''mac'' = dict_get d ''mac''"
    and "dict_get d3 ''drone_lat'' = dict_get_default d ''drone_lat'' (PNum 0)"
    and "dict_get d3 ''drone_long'' = dict_get_default d ''drone_long'' (PNum 0)"
    and "dict_get d3 ''last_update'' = PNum (time_time e)"
proof -
  have f: "\<And>x. x \<noteq> ''faa_data'' \<Longrightarrow> x \<noteq> ''basic_id'' \<Longrightarrow> d3 x = normalise_fields e d x"
    using merge_detection_fields [OF assms] by (simp add: carry_other_fields)
  show "dict_get d3 ''mac'' = dict_get d ''mac''"
    using f [of "''mac''"] by (simp add: dict_get_def dict_get_default_def normalise_fields_def)
  show "dict_get d3 ''drone_lat'' = dict_get_default d ''drone_lat'' (PNum 0)"
    using f [of "''drone_lat''"] by (simp add: dict_get_def dict_get_default_def normalise_fields_def)
  show "dict_get d3 ''drone_long'' = dict_get_default d ''drone_long'' (PNum 0)"
    using f [of "''drone_long''"] by (simp add: dict_get_def dict_get_default_def normalise_fields_def)
  show "dict_get d3 ''last_update'' = PNum (time_time e)"
    using f [of "''last_update''"] by (simp add: dict_get_def dict_get_default_def normalise_fields_def)
qed

lemma not_ne_zero_falsy: "\<not> ne_zero v \<Longrightarrow> \<not> truthy v"
  by (cases v) auto

lemma no_gps_falsy:
  assumes "\<not> valid_drone d"
  shows "\<not> (truthy (dict_get d ''drone_lat'') \<and> truthy (dict_get d ''drone_long''))"
proof -
  have "\<not> truthy (dict_get_default d ''drone_lat'' (PNum 0)) \<or>
        \<not> truthy (dict_get_default d ''drone_long'' (PNum 0))"
    using assms not_ne_zero_falsy by (auto simp: valid_drone_def)
  moreover have "\<And>x. truthy (dict_get d x) \<Longrightarrow> truthy (dict_get_default d x (PNum 0))"
    by (simp add: dict_get_def dict_get_default_def split: option.splits)
  ultimately show ?thesis by blast
qed

lemma no_gps_brings_no_point: "\<not> valid_drone d \<Longrightarrow> \<not> brings_point m d"
  using no_gps_falsy by (auto simp: brings_point_def)

text \<open>
  Every record \<^verbatim>\<open>update_detection\<close> appends is as described above, when the clock
  does not stand at the epoch.
\<close>

lemma update_detection_keeps_stored_ok:
  assumes "list_all stored_ok (detection_history s)" and "time_time e \<noteq> 0"
  shows "list_all stored_ok (detection_history (snd (update_detection e d s)))"
proof (cases "truthy (dict_get d ''mac'')")
  case False
  then show ?thesis using assms by (simp add: update_detection_def)
next
  case True
  show ?thesis
  proof (cases "key_of (dict_get d ''mac'')")
    case None
    then show ?thesis using assms True by (simp add: update_detection_def)
  next
    case (Some k)
    have hm: "hashable (dict_get d ''mac'')" using Some by (simp add: hashable_def)
    show ?thesis
    proof (cases "valid_drone d")
      case False
      then have "update_detection e d s = update_no_gps e k (dict_get d ''mac'') d s"
        using True Some by (simp add: update_detection_no_gps)
      moreover have "stored_ok d"
        using hm True no_gps_falsy [OF False] by (auto simp: stored_ok_def)
      ultimately show ?thesis using assms by (simp add: no_gps_history)
    next
      case gps: True
      have u: "update_detection e d s = update_gps e k (dict_get d ''mac'') d s"
        using True Some gps by (simp add: update_detection_gps)
      from update_gps_outcomes [of e k "dict_get d ''mac''" d s] show ?thesis
      proof
        assume "update_gps e k (dict_get d ''mac'') d s = (Raises TypeError, s)"
        then show ?thesis using assms by (simp add: u)
      next
        assume "\<exists>d3. merge_detection e k d s = Inr d3 \<and>
            fst (update_gps e k (dict_get d ''mac'') d s) =
              (case regen_error e (snd (update_gps e k (dict_get d ''mac'') d s)) of
                 None \<Rightarrow> Returns
               | Some err \<Rightarrow> Raises err) \<and>
            tracked_pairs (snd (update_gps e k (dict_get d ''mac'') d s))
              = AList.update k d3 (tracked_pairs s) \<and>
            detection_history (snd (update_gps e k (dict_get d ''mac'') d s)) = detection_history s @ [d3]"
        then obtain d3 where m: "merge_detection e k d s = Inr d3"
          and h: "detection_history (snd (update_gps e k (dict_get d ''mac'') d s)) = detection_history s @ [d3]"
          by blast
        have "stored_ok d3"
          using merge_detection_stored_fields(1,4) [OF m] hm True assms(2)
          by (simp add: stored_ok_def stamp_ok_def)
        then show ?thesis using assms by (simp add: u h)
      qed
    qed
  qed
qed

lemma api_paths_returns:
  assumes "\<forall>det \<in> set history. hashable (dict_get det ''mac'')"
  shows "\<exists>drone_paths pilot_paths.
           api_paths history = Inr (drone_paths, pilot_paths) \<and>
           (\<forall>k. map_of drone_paths k =
                 (if history_points ''drone_lat'' ''drone_long'' k history = [] then None
                  else Some (collapse_runs (history_points ''drone_lat'' ''drone_long'' k history)))) \<and>
           (\<forall>k. map_of pilot_paths k =
                 (if history_points ''pilot_lat'' ''pilot_long'' k history = [] then None
                  else Some (collapse_runs (history_points ''pilot_lat'' ''pilot_long'' k history)))) \<and>
           (\<forall>(k, path) \<in> set drone_paths \<union> set pilot_paths. no_equal_neighbours path)"
proof -
  obtain dp pp where loop: "paths_loop history ([], []) = Inr (dp, pp)"
    and d: "\<And>k. map_of dp k =
                (if history_points ''drone_lat'' ''drone_long'' k history = [] then None
                 else Some (history_points ''drone_lat'' ''drone_long'' k history))"
    and p: "\<And>k. map_of pp k =
                (if history_points ''pilot_lat'' ''pilot_long'' k history = [] then None
                 else Some (history_points ''pilot_lat'' ''pilot_long'' k history))"
    using paths_loop_lookup [OF assms, of "[]" "[]"] by (auto simp: lookup_path_def)
  let ?dps = "map (\<lambda>(k, ps). (k, dedupe ps)) dp"
  let ?pps = "map (\<lambda>(k, ps). (k, dedupe ps)) pp"
  have "api_paths history = Inr (?dps, ?pps)"
    by (simp add: api_paths_def loop)
  moreover have "\<forall>k. map_of ?dps k =
                 (if history_points ''drone_lat'' ''drone_long'' k history = [] then None
                  else Some (collapse_runs (history_points ''drone_lat'' ''drone_long'' k history)))"
    by (simp add: map_of_dedupe d dedupe_collapse)
  moreover have "\<forall>k. map_of ?pps k =
                 (if history_points ''pilot_lat'' ''pilot_long'' k history = [] then None
                  else Some (collapse_runs (history_points ''pilot_lat'' ''pilot_long'' k history)))"
    by (simp add: map_of_dedupe p dedupe_collapse)
  moreover have "\<forall>(k, path) \<in> set ?dps \<union> set ?pps. no_equal_neighbours path"
    by (auto simp: dedupe_collapse collapse_runs_no_equal_neighbours)
  ultimately show ?thesis by blast
qed

lemma paths_loop_append:
  "paths_loop (h @ h2) acc =
   (case paths_loop h acc of Inl err \<Rightarrow> Inl err | Inr acc' \<Rightarrow> paths_loop h2 acc')"
proof (induction h arbitrary: acc)
  case Nil
  then show ?case by simp
next
  case (Cons det rest)
  obtain dp pp where acc: "acc = (dp, pp)" by (cases acc) auto
  show ?case
    unfolding acc by (simp add: Let_def Cons.IH split: sum.splits)
qed

lemma paths_loop_no_gps:
  assumes "\<not> valid_drone d" and "hashable (dict_get d ''mac'')"
  shows "\<exists>pp'. paths_loop [d] (dp, pp) = Inr (dp, pp')"
  using assms
  by (auto simp: valid_drone_def add_point_def hashable_def Let_def)

lemma api_paths_no_gps_end:
  assumes "\<not> valid_drone d" and "hashable (dict_get d ''mac'')"
  shows "map_sum id fst (api_paths (h @ [d])) = map_sum id fst (api_paths h)"
proof (cases "paths_loop h ([], [])")
  case (Inl err)
  then show ?thesis by (simp add: api_paths_def paths_loop_append)
next
  case (Inr acc)
  obtain dp pp where acc: "acc = (dp, pp)" by (cases acc) auto
  obtain pp' where "paths_loop [d] (dp, pp) = Inr (dp, pp')"
    using paths_loop_no_gps [OF assms] by blast
  then show ?thesis
    using Inr by (simp add: api_paths_def paths_loop_append acc)
qed

lemma history_points_append:
  "history_points la lo k (h @ h2) = history_points la lo k h @ history_points la lo k h2"
  by (simp add: history_points_def)

lemma kml_points_append: "kml_points m (h @ h2) = kml_points m h @ kml_points m h2"
  by (simp add: kml_points_def)

lemma stored_ok_points:
  assumes "list_all stored_ok h"
  shows "\<forall>p \<in> set (kml_points m h). stamp_ok (snd (snd p))"
  using assms
  by (auto simp: kml_points_def list_all_iff stored_ok_def brings_point_def point_of_def)

lemma stored_ok_hashable:
  "list_all stored_ok h \<Longrightarrow> \<forall>det \<in> set h. hashable (dict_get det ''mac'')"
  by (simp add: list_all_iff stored_ok_def)

lemma gps_record_points:
  assumes mac: "truthy (dict_get d ''mac'')" "key_of (dict_get d ''mac'') = Some k"
    and gps: "valid_drone d"
    and m: "merge_detection e k d s = Inr d3"
  shows "history_points ''drone_lat'' ''drone_long'' k [d3]
         = [(dict_get d ''drone_lat'', dict_get d ''drone_long'')]"
    and "truthy (dict_get d ''drone_lat'') \<and> truthy (dict_get d ''drone_long'') \<Longrightarrow>
         kml_points k [d3] = [(dict_get d ''drone_long'', dict_get d ''drone_lat'', PNum (time_time e))]"
proof -
  have lat: "dict_get_default d ''drone_lat'' (PNum 0) = dict_get d ''drone_lat''"
    using gps by (cases "d ''drone_lat''") (simp_all add: valid_drone_def dict_get_def dict_get_default_def)
  have lon: "dict_get_default d ''drone_long'' (PNum 0) = dict_get d ''drone_long''"
    using gps by (cases "d ''drone_long''") (simp_all add: valid_drone_def dict_get_def dict_get_default_def)
  note f = merge_detection_stored_fields [OF m]
  have d3lat: "d3 ''drone_lat'' = Some (dict_get d ''drone_lat'')"
    and d3lon: "d3 ''drone_long'' = Some (dict_get d ''drone_long'')"
    using merge_detection_fields [OF m, of "''drone_lat''"] merge_detection_fields [OF m, of "''drone_long''"]
    by (simp_all add: carry_other_fields normalise_fields_def lat lon)
  have nz: "ne_zero (dict_get d ''drone_lat'')" "ne_zero (dict_get d ''drone_long'')"
    using gps by (simp_all add: valid_drone_def lat lon)
  show "history_points ''drone_lat'' ''drone_long'' k [d3]
         = [(dict_get d ''drone_lat'', dict_get d ''drone_long'')]"
    using mac nz f(1)
    by (simp add: history_points_def dict_get_default_def d3lat d3lon)
  show "kml_points k [d3] = [(dict_get d ''drone_long'', dict_get d ''drone_lat'', PNum (time_time e))]"
    if "truthy (dict_get d ''drone_lat'') \<and> truthy (dict_get d ''drone_long'')"
    using that mac f by (simp add: kml_points_def brings_point_def point_of_def lat lon)
qed

section \<open>Records without a mac\<close>

text \<open>
  C8. A record whose \<^verbatim>\<open>mac\<close> is absent or empty is dropped: the call raises nothing and
  leaves the tracked entries, the history, the cache and the effect log (CSV rows, KML
  regeneration, cache file, webhook) exactly as they were.
\<close>

theorem update_without_mac_is_noop:
  assumes "\<not> truthy (dict_get d ''mac'')"
  shows "update_detection e d s = (Returns, s)"
  using assms by (simp add: update_detection_def)

theorem update_without_mac_is_noop_witness:
  "update_detection env_hook [''rssi'' \<mapsto> PNum (-50)] state_x = (Returns, state_x) \<and>
   update_detection env_hook [''mac'' \<mapsto> PStr '''', ''drone_lat'' \<mapsto> PNum 1] state_x
     = (Returns, state_x)"
  using update_without_mac_is_noop [of "[''rssi'' \<mapsto> PNum (-50)]" env_hook state_x]
        update_without_mac_is_noop
          [of "[''mac'' \<mapsto> PStr '''', ''drone_lat'' \<mapsto> PNum 1]" env_hook state_x]
  by (simp add: dict_get_def dict_get_default_def)

section \<open>Remote ID across updates\<close>

text \<open>
  C1, as the code has it. When the tracked entry of a mac has a non-empty
  \<^verbatim>\<open>basic_id\<close> and a record for that mac arrives without one, with both drone
  coordinates nonzero, the record is stored and the tracked entry still has the previous
  \<^verbatim>\<open>basic_id\<close>; this is so whether the call then returns or an exception of the KML
  regeneration escapes, and nothing else can keep it from returning. (The no-GPS branch
  stores the record as it arrived.)
\<close>

theorem basic_id_kept_on_gps_update:
  assumes mac: "truthy (dict_get d ''mac'')" "key_of (dict_get d ''mac'') = Some k"
    and gps: "valid_drone d"
    and prev: "live_field s k ''basic_id'' = Some b" "truthy b" "hashable b"
    and lacks: "\<not> truthy (dict_get d ''basic_id'')"
  shows "live_field (snd (update_detection e d s)) k ''basic_id'' = Some b \<and>
         fst (update_detection e d s) =
           (case regen_error e (snd (update_detection e d s)) of
              None \<Rightarrow> Returns
            | Some err \<Rightarrow> Raises err)"
proof -
  from prev(1) obtain p where p: "map_of (tracked_pairs s) k = Some p" and pb: "p ''basic_id'' = Some b"
    by (auto simp: live_field_def split: option.splits)
  have gb: "dict_get p ''basic_id'' = b"
    using pb by (simp add: dict_get_def dict_get_default_def)
  let ?d1 = "carry_basic_id (map_of (tracked_pairs s) k) (normalise_fields e d)"
  have d1: "?d1 ''basic_id'' = Some b"
    using lacks prev(2) gb
    by (simp add: p carry_basic_id_def normalise_basic_id)
  then have "hashable (dict_get ?d1 ''basic_id'')"
    using prev(3) by (simp add: dict_get_def dict_get_default_def)
  then obtain d3 where m: "merge_detection e k d s = Inr d3"
    using merge_detection_returns by blast
  have d3: "d3 ''basic_id'' = Some b"
    using merge_detection_fields [OF m, of "''basic_id''"] d1 by simp
  then have h: "hashable (dict_get d3 ''basic_id'')"
    using prev(3) by (simp add: dict_get_def dict_get_default_def)
  have u: "update_detection e d s = update_gps e k (dict_get d ''mac'') d s"
    using mac gps by (rule update_detection_gps)
  show ?thesis
    unfolding u
    using update_gps_stored(1,4) [OF mac(2) m h] d3
    by (simp add: live_field_eq)
qed

theorem basic_id_kept_on_gps_update_witness:
  "live_field (snd (update_detection env_hook det_fix state_x)) (KStr ''AA'') ''basic_id''
     = Some (PStr ''X'') \<and>
   fst (update_detection env_hook det_fix state_x) =
     (case regen_error env_hook (snd (update_detection env_hook det_fix state_x)) of
        None \<Rightarrow> Returns
      | Some err \<Rightarrow> Raises err)"
  using basic_id_kept_on_gps_update [of det_fix "KStr ''AA''" state_x "PStr ''X''" env_hook]
  by (simp add: det_fix_def state_x_def det_x_def live_field_def valid_drone_def hashable_def
        dict_get_def dict_get_default_def)

text \<open>
  The claim as stated also covers no-GPS updates. There it fails: mac \<^verbatim>\<open>AA\<close> is tracked
  with remote ID \<^verbatim>\<open>X\<close>; after a record for \<^verbatim>\<open>AA\<close> without coordinates and without
  \<^verbatim>\<open>basic_id\<close>, the tracked entry has no \<^verbatim>\<open>basic_id\<close>.
\<close>

theorem basic_id_lost_on_no_gps_update:
  "live_field state_x (KStr ''AA'') ''basic_id'' = Some (PStr ''X'') \<and>
   det_nofix ''basic_id'' = None \<and>
   live_field (snd (update_detection env_hook det_nofix state_x)) (KStr ''AA'') ''basic_id'' = None"
proof -
  have "update_detection env_hook det_nofix state_x
        = update_no_gps env_hook (KStr ''AA'') (dict_get det_nofix ''mac'') det_nofix state_x"
    by (rule update_detection_no_gps)
       (simp_all add: det_nofix_def valid_drone_def dict_get_def dict_get_default_def)
  then show ?thesis
    using no_gps_tracked [of env_hook "KStr ''AA''" "dict_get det_nofix ''mac''" det_nofix state_x]
    by (simp add: live_field_def update_conv') (simp add: det_nofix_def state_x_def det_x_def)
qed

section \<open>Registry data across updates\<close>

text \<open>
  C2, as the code has it. When the tracked entry of a mac carries \<^verbatim>\<open>faa_data\<close> and a
  record for that mac arrives without a \<^verbatim>\<open>faa_data\<close> key, with both drone coordinates
  nonzero, the record is stored and the tracked entry carries \<^verbatim>\<open>faa_data\<close> afterwards.
  Its value is the first of: the cache entry of (mac, stored remote ID), the first cache
  entry of that mac, the previous value; so a cached value replaces the previous one, and
  the previous one is kept when the cache has nothing for the mac. This is so whether the
  call then returns or an exception of the KML regeneration escapes. (The no-GPS branch
  stores the record as it arrived.)
\<close>

theorem faa_data_kept_on_gps_update:
  assumes mac: "truthy (dict_get d ''mac'')" "key_of (dict_get d ''mac'') = Some k"
    and gps: "valid_drone d"
    and prev: "live_field s k ''faa_data'' = Some f"
    and lacks: "d ''faa_data'' = None"
    and h1: "hashable (dict_get d ''basic_id'')"
    and h2: "\<forall>b. live_field s k ''basic_id'' = Some b \<longrightarrow> hashable b"
  shows "(\<exists>d' f'. map_of (tracked_pairs (snd (update_detection e d s))) k = Some d' \<and>
            d' ''faa_data'' = Some f' \<and>
            Some f' = spec_resolve k (dict_get d' ''basic_id'') (map_of (tracked_pairs s) k)
                        (FAA_CACHE s) \<and>
            (f' = f \<or> (\<exists>kr. ((k, kr), f') \<in> set (FAA_CACHE s)))) \<and>
         fst (update_detection e d s) =
           (case regen_error e (snd (update_detection e d s)) of
              None \<Rightarrow> Returns
            | Some err \<Rightarrow> Raises err)"
proof -
  obtain d3 where m: "merge_detection e k d s = Inr d3"
    and h: "hashable (dict_get d3 ''basic_id'')"
    and u: "update_detection e d s = update_gps e k (dict_get d ''mac'') d s"
    using gps_update_returns [OF mac gps h1 h2] by blast
  from prev obtain p where p: "map_of (tracked_pairs s) k = Some p" and pf: "p ''faa_data'' = Some f"
    by (auto simp: live_field_def split: option.splits)
  let ?d1 = "carry_basic_id (map_of (tracked_pairs s) k) (normalise_fields e d)"
  have "d3 ''basic_id'' = ?d1 ''basic_id''"
    using m by (rule merge_detection_fields) simp
  then have b: "dict_get d3 ''basic_id'' = dict_get ?d1 ''basic_id''"
    by (rule dict_get_eq)
  have r: "d3 ''faa_data'' =
        spec_resolve k (dict_get d3 ''basic_id'') (Some p) (FAA_CACHE s)"
    using merge_detection_faa [OF m lacks] by (simp add: p b)
  obtain f' where f': "d3 ''faa_data'' = Some f'"
    and o: "f' = f \<or> (\<exists>kr. ((k, kr), f') \<in> set (FAA_CACHE s))"
    using spec_resolve_prev [of p f k "dict_get d3 ''basic_id''" "FAA_CACHE s", OF pf] r by metis
  have "map_of (tracked_pairs (snd (update_detection e d s))) k = Some d3"
    unfolding u using update_gps_stored(1) [OF mac(2) m h] by (simp add: update_conv')
  moreover have "Some f' = spec_resolve k (dict_get d3 ''basic_id'') (map_of (tracked_pairs s) k)
                        (FAA_CACHE s)"
    using r f' by (simp add: p)
  moreover have "fst (update_detection e d s) =
           (case regen_error e (snd (update_detection e d s)) of
              None \<Rightarrow> Returns
            | Some err \<Rightarrow> Raises err)"
    unfolding u using update_gps_stored(4) [OF mac(2) m h] .
  ultimately show ?thesis using f' o by blast
qed

theorem faa_data_kept_on_gps_update_witness:
  "(\<exists>d' f'. map_of (tracked_pairs (snd (update_detection env_hook det_fix state_x))) (KStr ''AA'')
               = Some d' \<and>
      d' ''faa_data'' = Some f' \<and>
      Some f' = spec_resolve (KStr ''AA'') (dict_get d' ''basic_id'')
                  (map_of (tracked_pairs state_x) (KStr ''AA'')) (FAA_CACHE state_x) \<and>
      (f' = faa_x \<or> (\<exists>kr. ((KStr ''AA'', kr), f') \<in> set (FAA_CACHE state_x)))) \<and>
   fst (update_detection env_hook det_fix state_x) =
     (case regen_error env_hook (snd (update_detection env_hook det_fix state_x)) of
        None \<Rightarrow> Returns
      | Some err \<Rightarrow> Raises err)"
  using faa_data_kept_on_gps_update [of det_fix "KStr ''AA''" state_x faa_x env_hook]
  by (simp add: det_fix_def state_x_def det_x_def live_field_def valid_drone_def hashable_def
        dict_get_def dict_get_default_def)

text \<open>
  The claim as stated covers every update that brings no registry data, and says the data is
  never erased. It fails in three ways. After a no-GPS record without \<^verbatim>\<open>faa_data\<close> the
  tracked entry has none. After a fix-bearing record whose \<^verbatim>\<open>faa_data\<close> is \<^verbatim>\<open>null\<close>
  the tracked entry holds \<^verbatim>\<open>null\<close>, because the fallbacks ask whether the key is there.
  And after a fix-bearing record without the key, the empty placeholder that a no-GPS record
  has cached for the mac replaces the data.
\<close>

theorem faa_data_lost_on_update_without_it:
  "live_field state_x (KStr ''AA'') ''faa_data'' = Some faa_x \<and>
   det_nofix ''faa_data'' = None \<and>
   live_field (snd (update_detection env_hook det_nofix state_x)) (KStr ''AA'') ''faa_data'' = None \<and>
   live_field state_n (KStr ''AA'') ''faa_data'' = Some faa_x \<and>
   valid_drone det_null \<and> det_null ''faa_data'' = Some PNone \<and>
   live_field (snd (update_detection env_hook det_null state_n)) (KStr ''AA'') ''faa_data''
     = Some PNone \<and>
   live_field state_p (KStr ''AA'') ''faa_data'' = Some faa_x \<and>
   valid_drone det_w \<and> det_w ''faa_data'' = None \<and>
   live_field (snd (update_detection env_hook det_w state_p)) (KStr ''AA'') ''faa_data''
     = Some (PDict [])"
proof -
  have "update_detection env_hook det_nofix state_x
        = update_no_gps env_hook (KStr ''AA'') (dict_get det_nofix ''mac'') det_nofix state_x"
    by (rule update_detection_no_gps)
       (simp_all add: det_nofix_def valid_drone_def dict_get_def dict_get_default_def)
  then have a: "live_field state_x (KStr ''AA'') ''faa_data'' = Some faa_x \<and>
      det_nofix ''faa_data'' = None \<and>
      live_field (snd (update_detection env_hook det_nofix state_x)) (KStr ''AA'') ''faa_data'' = None"
    using no_gps_tracked [of env_hook "KStr ''AA''" "dict_get det_nofix ''mac''" det_nofix state_x]
    by (simp add: live_field_def update_conv') (simp add: det_nofix_def state_x_def det_x_def)
  have mn: "truthy (dict_get det_null ''mac'')" "key_of (dict_get det_null ''mac'') = Some (KStr ''AA'')"
    "valid_drone det_null"
    by (simp_all add: det_null_def valid_drone_def dict_get_def dict_get_default_def)
  have "\<exists>d3. merge_detection env_hook (KStr ''AA'') det_null state_n = Inr d3 \<and>
          d3 ''faa_data'' = Some PNone \<and> hashable (dict_get d3 ''basic_id'')"
    by (simp add: merge_detection_def exact_lookup_def mac_fallback_def prev_fallback_def
          carry_basic_id_def normalise_fields_def det_null_def state_n_def det_faa_only_def
          hashable_def dict_get_def dict_get_default_def Let_def)
  then obtain dn where "merge_detection env_hook (KStr ''AA'') det_null state_n = Inr dn"
    and "hashable (dict_get dn ''basic_id'')" and fn: "dn ''faa_data'' = Some PNone"
    by blast
  then have "live_field (snd (update_detection env_hook det_null state_n)) (KStr ''AA'') ''faa_data''
             = dn ''faa_data''"
    using gps_live_field(1) [OF mn] by blast
  then have b: "live_field state_n (KStr ''AA'') ''faa_data'' = Some faa_x \<and>
      valid_drone det_null \<and> det_null ''faa_data'' = Some PNone \<and>
      live_field (snd (update_detection env_hook det_null state_n)) (KStr ''AA'') ''faa_data''
        = Some PNone"
    using mn(3) fn by (simp add: live_field_def state_n_def det_faa_only_def det_null_def)
  have mw: "truthy (dict_get det_w ''mac'')" "key_of (dict_get det_w ''mac'') = Some (KStr ''AA'')"
    "valid_drone det_w"
    by (simp_all add: det_w_def valid_drone_def dict_get_def dict_get_default_def)
  have "\<exists>d3. merge_detection env_hook (KStr ''AA'') det_w state_p = Inr d3 \<and>
          d3 ''faa_data'' = Some (PDict []) \<and> hashable (dict_get d3 ''basic_id'')"
    by (simp add: merge_detection_def exact_lookup_def mac_fallback_def prev_fallback_def
          carry_basic_id_def normalise_fields_def det_w_def state_p_def det_z_def
          hashable_def dict_get_def dict_get_default_def Let_def)
  then obtain dw where "merge_detection env_hook (KStr ''AA'') det_w state_p = Inr dw"
    and "hashable (dict_get dw ''basic_id'')" and fw: "dw ''faa_data'' = Some (PDict [])"
    by blast
  then have "live_field (snd (update_detection env_hook det_w state_p)) (KStr ''AA'') ''faa_data''
             = dw ''faa_data''"
    using gps_live_field(1) [OF mw] by blast
  then have c: "live_field state_p (KStr ''AA'') ''faa_data'' = Some faa_x \<and>
      valid_drone det_w \<and> det_w ''faa_data'' = None \<and>
      live_field (snd (update_detection env_hook det_w state_p)) (KStr ''AA'') ''faa_data''
        = Some (PDict [])"
    using mw(3) fw by (simp add: live_field_def state_p_def det_z_def det_w_def)
  show ?thesis using a b c by blast
qed

section \<open>The lookup order for registry data\<close>

text \<open>
  C5, as the code has it. For a GPS update whose record brings no \<^verbatim>\<open>faa_data\<close>
  of its own, the stored record's \<^verbatim>\<open>faa_data\<close> is the first hit of: the cache entry of
  (mac, remote ID), with the remote ID as stored, that is after the carry-forward; the first
  cache entry of that mac; the \<^verbatim>\<open>faa_data\<close> of the previous tracked entry. A value found
  is written to the cache under (mac, stored \<^verbatim>\<open>basic_id\<close>, or the empty string when
  there is none); when nothing is found the cache is unchanged. All this is done before the
  KML files are regenerated, so it holds whether the call returns or an exception of the
  regeneration escapes.
\<close>

theorem faa_data_cascade_on_gps_update:
  assumes mac: "truthy (dict_get d ''mac'')" "key_of (dict_get d ''mac'') = Some k"
    and gps: "valid_drone d"
    and lacks: "d ''faa_data'' = None"
    and h1: "hashable (dict_get d ''basic_id'')"
    and h2: "\<forall>b. live_field s k ''basic_id'' = Some b \<longrightarrow> hashable b"
  shows "(\<exists>d' kr. map_of (tracked_pairs (snd (update_detection e d s))) k = Some d' \<and>
            d' ''faa_data'' =
              spec_resolve k (dict_get d' ''basic_id'') (map_of (tracked_pairs s) k) (FAA_CACHE s) \<and>
            key_of (dict_get_default d' ''basic_id'' (PStr '''')) = Some kr \<and>
            FAA_CACHE (snd (update_detection e d s)) =
              (case d' ''faa_data'' of
                 None \<Rightarrow> FAA_CACHE s
               | Some f \<Rightarrow> AList.update (k, kr) f (FAA_CACHE s))) \<and>
         fst (update_detection e d s) =
           (case regen_error e (snd (update_detection e d s)) of
              None \<Rightarrow> Returns
            | Some err \<Rightarrow> Raises err)"
proof -
  obtain d3 where m: "merge_detection e k d s = Inr d3"
    and h: "hashable (dict_get d3 ''basic_id'')"
    and u: "update_detection e d s = update_gps e k (dict_get d ''mac'') d s"
    using gps_update_returns [OF mac gps h1 h2] by blast
  let ?d1 = "carry_basic_id (map_of (tracked_pairs s) k) (normalise_fields e d)"
  have "d3 ''basic_id'' = ?d1 ''basic_id''"
    using m by (rule merge_detection_fields) simp
  then have b: "dict_get d3 ''basic_id'' = dict_get ?d1 ''basic_id''"
    by (rule dict_get_eq)
  have f: "d3 ''faa_data'' =
        spec_resolve k (dict_get d3 ''basic_id'') (map_of (tracked_pairs s) k) (FAA_CACHE s)"
    using merge_detection_faa [OF m lacks] by (simp add: b)
  obtain kr where kr: "key_of (dict_get_default d3 ''basic_id'' (PStr '''')) = Some kr"
    using hashable_default [OF h] by (auto simp: hashable_def)
  have "map_of (tracked_pairs (snd (update_detection e d s))) k = Some d3"
    unfolding u using update_gps_stored(1) [OF mac(2) m h] by (simp add: update_conv')
  moreover have "FAA_CACHE (snd (update_detection e d s)) =
              (case d3 ''faa_data'' of
                 None \<Rightarrow> FAA_CACHE s
               | Some f \<Rightarrow> AList.update (k, kr) f (FAA_CACHE s))"
    unfolding u using update_gps_stored(3) [OF mac(2) m h] by (simp add: kr split: option.splits)
  moreover have "fst (update_detection e d s) =
           (case regen_error e (snd (update_detection e d s)) of
              None \<Rightarrow> Returns
            | Some err \<Rightarrow> Raises err)"
    unfolding u using update_gps_stored(4) [OF mac(2) m h] .
  ultimately show ?thesis using f kr by blast
qed

theorem faa_data_cascade_on_gps_update_witness:
  "(\<exists>d' kr. map_of (tracked_pairs (snd (update_detection env_hook det_r1 state_r2))) (KStr ''AA'')
              = Some d' \<and>
      d' ''faa_data'' =
        spec_resolve (KStr ''AA'') (dict_get d' ''basic_id'')
          (map_of (tracked_pairs state_r2) (KStr ''AA'')) (FAA_CACHE state_r2) \<and>
      key_of (dict_get_default d' ''basic_id'' (PStr '''')) = Some kr \<and>
      FAA_CACHE (snd (update_detection env_hook det_r1 state_r2)) =
        (case d' ''faa_data'' of
           None \<Rightarrow> FAA_CACHE state_r2
         | Some f \<Rightarrow> AList.update (KStr ''AA'', kr) f (FAA_CACHE state_r2))) \<and>
   fst (update_detection env_hook det_r1 state_r2) =
     (case regen_error env_hook (snd (update_detection env_hook det_r1 state_r2)) of
        None \<Rightarrow> Returns
      | Some err \<Rightarrow> Raises err)"
  using faa_data_cascade_on_gps_update [of det_r1 "KStr ''AA''" state_r2 env_hook]
  by (simp add: det_r1_def state_r2_def live_field_def valid_drone_def hashable_def
        dict_get_def dict_get_default_def)

text \<open>
  The design's example: (\<^verbatim>\<open>AA\<close>, \<^verbatim>\<open>R1\<close>) with a cache that has only (\<^verbatim>\<open>AA\<close>, \<^verbatim>\<open>R2\<close>)
  gets the payload of the \<^verbatim>\<open>R2\<close> entry, which is then cached under (\<^verbatim>\<open>AA\<close>, \<^verbatim>\<open>R1\<close>) too.
\<close>

lemma cache_cascade_example:
  "live_field (snd (update_detection env_hook det_r1 state_r2)) (KStr ''AA'') ''faa_data'' = Some faa_x \<and>
   FAA_CACHE (snd (update_detection env_hook det_r1 state_r2)) =
     [((KStr ''AA'', KStr ''R2''), faa_x), ((KStr ''AA'', KStr ''R1''), faa_x)]"
proof -
  have mr: "truthy (dict_get det_r1 ''mac'')" "key_of (dict_get det_r1 ''mac'') = Some (KStr ''AA'')"
    "valid_drone det_r1"
    by (simp_all add: det_r1_def valid_drone_def dict_get_def dict_get_default_def)
  have "\<exists>d3. merge_detection env_hook (KStr ''AA'') det_r1 state_r2 = Inr d3 \<and>
          d3 ''faa_data'' = Some faa_x \<and> dict_get d3 ''basic_id'' = PStr ''R1'' \<and>
          dict_get_default d3 ''basic_id'' (PStr '''') = PStr ''R1''"
    by (simp add: merge_detection_def exact_lookup_def mac_fallback_def prev_fallback_def
          carry_basic_id_def normalise_fields_def det_r1_def state_r2_def
          dict_get_def dict_get_default_def Let_def)
  then obtain d3 where m: "merge_detection env_hook (KStr ''AA'') det_r1 state_r2 = Inr d3"
    and f: "d3 ''faa_data'' = Some faa_x" and b: "dict_get d3 ''basic_id'' = PStr ''R1''"
    and b2: "dict_get_default d3 ''basic_id'' (PStr '''') = PStr ''R1''"
    by blast
  have h: "hashable (dict_get d3 ''basic_id'')" by (simp add: b hashable_def)
  show ?thesis
    using gps_live_field [OF mr m h] f b2 by (simp add: state_r2_def)
qed

text \<open>
  The claim as stated covers every GPS update. It fails for a record that brings
  \<^verbatim>\<open>faa_data\<close> of its own: with no exact cache entry, the claim's second step would take
  the cached payload of the mac, the code keeps the record's own.
\<close>

theorem own_faa_data_beats_mac_fallback:
  "cache_any_for_mac (KStr ''AA'') (FAA_CACHE state_r2) = Some faa_x \<and>
   map_of (FAA_CACHE state_r2) (KStr ''AA'', KStr ''R1'') = None \<and>
   live_field (snd (update_detection env_hook det_own state_r2)) (KStr ''AA'') ''faa_data''
     = Some faa_own \<and>
   faa_own \<noteq> faa_x"
proof -
  have mo: "truthy (dict_get det_own ''mac'')" "key_of (dict_get det_own ''mac'') = Some (KStr ''AA'')"
    "valid_drone det_own"
    by (simp_all add: det_own_def valid_drone_def dict_get_def dict_get_default_def)
  have "\<exists>d3. merge_detection env_hook (KStr ''AA'') det_own state_r2 = Inr d3 \<and>
          d3 ''faa_data'' = Some faa_own \<and> hashable (dict_get d3 ''basic_id'')"
    by (simp add: merge_detection_def exact_lookup_def mac_fallback_def prev_fallback_def
          carry_basic_id_def normalise_fields_def det_own_def state_r2_def hashable_def
          dict_get_def dict_get_default_def Let_def)
  then obtain d3 where m: "merge_detection env_hook (KStr ''AA'') det_own state_r2 = Inr d3"
    and f: "d3 ''faa_data'' = Some faa_own" and h: "hashable (dict_get d3 ''basic_id'')"
    by blast
  have "live_field (snd (update_detection env_hook det_own state_r2)) (KStr ''AA'') ''faa_data''
        = Some faa_own"
    using gps_live_field(1) [OF mo m h] f by simp
  then show ?thesis
    by (simp add: state_r2_def faa_own_def faa_x_def)
qed

section \<open>The server-side webhook\<close>

text \<open>
  C6, as the code has it. With a webhook URL configured, every no-GPS update posts the
  record to it with a timeout of 5 seconds, right after the in-memory update. The post is
  made in line. While it has not come back the call waits in it, the record stored and
  nothing else done. Once it has come back, a failure is logged and the update goes on with
  both CSV rows, and ends as it would have ended after a successful post. A GPS update posts
  nothing.
\<close>

theorem webhook_posted_on_no_gps_update_only:
  assumes mac: "truthy (dict_get d ''mac'')" "key_of (dict_get d ''mac'') = Some k"
    and url: "truthy (WEBHOOK_URL e)"
  shows "(\<not> valid_drone d \<longrightarrow>
           (\<exists>rest. effects (snd (update_detection e d s)) =
              effects s @ WebhookPost (WEBHOOK_URL e) d 5 # rest) \<and>
           live_field (snd (update_detection e d s)) k = d \<and>
           detection_history (snd (update_detection e d s)) = detection_history s @ [d] \<and>
           (post_result e = PostPending \<longrightarrow>
              update_detection e d s =
                (Blocked, emit [WebhookPost (WEBHOOK_URL e) d 5]
                   (s\<lparr>tracked_pairs := AList.update k d (tracked_pairs s),
                      detection_history := detection_history s @ [d]\<rparr>))) \<and>
           (post_result e \<noteq> PostPending \<longrightarrow>
              fst (update_detection e d s) \<noteq> Blocked \<and>
              (\<exists>rest. effects (snd (update_detection e d s)) =
                 effects s @
                 WebhookPost (WEBHOOK_URL e) d 5 #
                 (if post_result e = PostRaises then [LogError] else []) @
                 [CsvAppend SessionCsv
                    (make_row e 0 k (dict_get d ''mac'') d (dict_get_default d ''drone_lat'' (PNum 0))
                       (dict_get_default d ''drone_long'' (PNum 0))),
                  CsvAppend CumulativeCsv
                    (make_row e 1 k (dict_get d ''mac'') d (dict_get_default d ''drone_lat'' (PNum 0))
                       (dict_get_default d ''drone_long'' (PNum 0)))] @ rest) \<and>
              fst (update_detection e d s)
                = fst (update_detection (e\<lparr>post_result := PostReturns\<rparr>) d s))) \<and>
         (valid_drone d \<longrightarrow>
           filter is_webhook_post (effects (snd (update_detection e d s)))
           = filter is_webhook_post (effects s))"
proof (cases "valid_drone d")
  case True
  then have "update_detection e d s = update_gps e k (dict_get d ''mac'') d s"
    using mac by (simp add: update_detection_gps)
  then show ?thesis using True by (simp add: gps_effects)
next
  case False
  let ?mac = "dict_get d ''mac''"
  have u: "\<And>e. update_detection e d s = update_no_gps e k ?mac d s"
    using mac False by (simp add: update_detection_no_gps)
  have st: "live_field (snd (update_no_gps e k ?mac d s)) k = d"
    by (rule ext) (simp add: live_field_eq [OF no_gps_tracked])
  have post: "\<exists>rest. effects (snd (update_no_gps e k ?mac d s)) =
              effects s @ WebhookPost (WEBHOOK_URL e) d 5 # rest"
  proof (cases "post_result e = PostPending")
    case True
    then show ?thesis using url by (simp add: no_gps_blocked emit_fields)
  next
    case False
    then show ?thesis using no_gps_effects [OF url False, of k ?mac d s] by auto
  qed
  have pend: "update_no_gps e k ?mac d s =
                (Blocked, emit [WebhookPost (WEBHOOK_URL e) d 5]
                   (s\<lparr>tracked_pairs := AList.update k d (tracked_pairs s),
                      detection_history := detection_history s @ [d]\<rparr>))"
    if "post_result e = PostPending"
    using url that by (rule no_gps_blocked)
  have same: "fst (update_no_gps e k ?mac d s)
                = fst (update_no_gps (e\<lparr>post_result := PostReturns\<rparr>) k ?mac d s)"
    if "post_result e \<noteq> PostPending"
  proof -
    let ?e' = "e\<lparr>post_result := PostReturns\<rparr>"
    have mr: "make_row ?e' = make_row e"
      by (intro ext) (simp add: make_row_def)
    have py: "python ?e' = python e" by simp
    have nb': "\<not> (truthy (WEBHOOK_URL ?e') \<and> post_result ?e' = PostPending)" by simp
    have nb: "\<not> (truthy (WEBHOOK_URL e) \<and> post_result e = PostPending)"
      using that by simp
    show ?thesis
      unfolding no_gps_outcome [OF nb] no_gps_outcome [OF nb'] mr py ..
  qed
  show ?thesis
    using False st post pend same no_gps_effects [OF url, of k ?mac d s]
    by (simp add: u no_gps_history)
qed

theorem webhook_posted_on_no_gps_update_only_witness:
  "(\<exists>rest. effects (snd (update_detection env_hook det_nofix state_x)) =
      effects state_x @
      WebhookPost (WEBHOOK_URL env_hook) det_nofix 5 #
      (if post_result env_hook = PostRaises then [LogError] else []) @
      [CsvAppend SessionCsv
         (make_row env_hook 0 (KStr ''AA'') (dict_get det_nofix ''mac'') det_nofix
            (dict_get_default det_nofix ''drone_lat'' (PNum 0))
            (dict_get_default det_nofix ''drone_long'' (PNum 0))),
       CsvAppend CumulativeCsv
         (make_row env_hook 1 (KStr ''AA'') (dict_get det_nofix ''mac'') det_nofix
            (dict_get_default det_nofix ''drone_lat'' (PNum 0))
            (dict_get_default det_nofix ''drone_long'' (PNum 0)))] @ rest) \<and>
   post_result env_hook = PostRaises \<and>
   fst (update_detection env_hook det_nofix state_x) \<noteq> Blocked \<and>
   fst (update_detection env_hook det_nofix state_x)
     = fst (update_detection (env_hook\<lparr>post_result := PostReturns\<rparr>) det_nofix state_x) \<and>
   detection_history (snd (update_detection env_hook det_nofix state_x))
     = detection_history state_x @ [det_nofix] \<and>
   filter is_webhook_post (effects (snd (update_detection env_hook det_fix state_x)))
     = filter is_webhook_post (effects state_x)"
proof -
  have m1: "truthy (dict_get det_nofix ''mac'')" "key_of (dict_get det_nofix ''mac'') = Some (KStr ''AA'')"
    and nv: "\<not> valid_drone det_nofix"
    by (simp_all add: det_nofix_def valid_drone_def dict_get_def dict_get_default_def)
  have m2: "truthy (dict_get det_fix ''mac'')" "key_of (dict_get det_fix ''mac'') = Some (KStr ''AA'')"
    and v: "valid_drone det_fix"
    by (simp_all add: det_fix_def valid_drone_def dict_get_def dict_get_default_def)
  have url: "truthy (WEBHOOK_URL env_hook)" and p: "post_result env_hook = PostRaises"
    "post_result env_hook \<noteq> PostPending"
    by (simp_all add: env_hook_def)
  show ?thesis
    using webhook_posted_on_no_gps_update_only [OF m1 url, of state_x]
          webhook_posted_on_no_gps_update_only [OF m2 url, of state_x] nv v p
    by blast
qed

text \<open>
  The claim as stated covers GPS updates too, and says the post never blocks the update.
  Both fail. With the URL configured, a GPS update posts nothing. And a no-GPS update whose
  post has not come back is still waiting in it: the record is stored, no CSV row is
  written, no KML file regenerated.
\<close>

theorem no_webhook_on_gps_update:
  "truthy (WEBHOOK_URL env_hook) \<and> valid_drone det_fix \<and>
   filter is_webhook_post (effects (snd (update_detection env_hook det_fix state_x))) = [] \<and>
   \<not> valid_drone det_nofix \<and>
   fst (update_detection (env_hook\<lparr>post_result := PostPending\<rparr>) det_nofix state_x) = Blocked \<and>
   effects (snd (update_detection (env_hook\<lparr>post_result := PostPending\<rparr>) det_nofix state_x))
     = [WebhookPost (PStr ''http://hook'') det_nofix 5]"
proof -
  have m1: "truthy (dict_get det_fix ''mac'')" "key_of (dict_get det_fix ''mac'') = Some (KStr ''AA'')"
    "valid_drone det_fix"
    by (simp_all add: det_fix_def valid_drone_def dict_get_def dict_get_default_def)
  have "update_detection env_hook det_fix state_x
        = update_gps env_hook (KStr ''AA'') (dict_get det_fix ''mac'') det_fix state_x"
    using m1 by (rule update_detection_gps)
  then have a: "filter is_webhook_post (effects (snd (update_detection env_hook det_fix state_x))) = []"
    by (simp add: gps_effects) (simp add: state_x_def)
  have m2: "truthy (dict_get det_nofix ''mac'')" "key_of (dict_get det_nofix ''mac'') = Some (KStr ''AA'')"
    "\<not> valid_drone det_nofix"
    by (simp_all add: det_nofix_def valid_drone_def dict_get_def dict_get_default_def)
  have "update_detection (env_hook\<lparr>post_result := PostPending\<rparr>) det_nofix state_x
        = update_no_gps (env_hook\<lparr>post_result := PostPending\<rparr>) (KStr ''AA'')
            (dict_get det_nofix ''mac'') det_nofix state_x"
    using m2 by (rule update_detection_no_gps)
  then have b: "fst (update_detection (env_hook\<lparr>post_result := PostPending\<rparr>) det_nofix state_x) = Blocked \<and>
      effects (snd (update_detection (env_hook\<lparr>post_result := PostPending\<rparr>) det_nofix state_x))
        = [WebhookPost (PStr ''http://hook'') det_nofix 5]"
    by (simp add: no_gps_blocked env_hook_def emit_fields) (simp add: state_x_def)
  show ?thesis
    using a b m1(3) m2(3) by (simp add: env_hook_def)
qed

section \<open>The timestamp of a stored record\<close>

text \<open>
  C10. A record with both drone coordinates nonzero is stored, in the tracked entry and
  at the end of the history, with \<^verbatim>\<open>last_update\<close> set to the server's clock, whatever the
  caller sent. The one exception is a TypeError from hashing a remote ID, which escapes
  before anything is stored; with hashable remote IDs the record is always stored. Once it
  is stored, the call returns unless regenerating a KML file raises, and then the record
  stays stored as described. A no-GPS record is stored exactly as it arrived, its
  \<^verbatim>\<open>last_update\<close> included, whatever becomes of the rest of the call.
\<close>

theorem last_update_overwritten_on_gps_update_only:
  assumes mac: "truthy (dict_get d ''mac'')" "key_of (dict_get d ''mac'') = Some k"
  shows "(valid_drone d \<longrightarrow>
            update_detection e d s = (Raises TypeError, s) \<or>
            (\<exists>d'. map_of (tracked_pairs (snd (update_detection e d s))) k = Some d' \<and>
                  detection_history (snd (update_detection e d s)) = detection_history s @ [d'] \<and>
                  d' ''last_update'' = Some (PNum (time_time e)) \<and>
                  fst (update_detection e d s) =
                    (case regen_error e (snd (update_detection e d s)) of
                       None \<Rightarrow> Returns
                     | Some err \<Rightarrow> Raises err))) \<and>
         (valid_drone d \<and> hashable (dict_get d ''basic_id'') \<and>
          (\<forall>b. live_field s k ''basic_id'' = Some b \<longrightarrow> hashable b) \<longrightarrow>
            (\<exists>d'. map_of (tracked_pairs (snd (update_detection e d s))) k = Some d' \<and>
                  detection_history (snd (update_detection e d s)) = detection_history s @ [d'] \<and>
                  d' ''last_update'' = Some (PNum (time_time e)))) \<and>
         (\<not> valid_drone d \<longrightarrow>
            map_of (tracked_pairs (snd (update_detection e d s))) k = Some d \<and>
            detection_history (snd (update_detection e d s)) = detection_history s @ [d])"
proof (cases "valid_drone d")
  case False
  then have u: "update_detection e d s = update_no_gps e k (dict_get d ''mac'') d s"
    using mac by (simp add: update_detection_no_gps)
  show ?thesis
    using False by (simp add: u no_gps_history no_gps_tracked update_conv')
next
  case True
  have u: "update_detection e d s = update_gps e k (dict_get d ''mac'') d s"
    using mac True by (rule update_detection_gps)
  have a: "update_detection e d s = (Raises TypeError, s) \<or>
            (\<exists>d'. map_of (tracked_pairs (snd (update_detection e d s))) k = Some d' \<and>
                  detection_history (snd (update_detection e d s)) = detection_history s @ [d'] \<and>
                  d' ''last_update'' = Some (PNum (time_time e)) \<and>
                  fst (update_detection e d s) =
                    (case regen_error e (snd (update_detection e d s)) of
                       None \<Rightarrow> Returns
                     | Some err \<Rightarrow> Raises err))"
    using update_gps_outcomes [of e k "dict_get d ''mac''" d s]
  proof
    assume "update_gps e k (dict_get d ''mac'') d s = (Raises TypeError, s)"
    then show ?thesis by (simp add: u)
  next
    assume "\<exists>d3. merge_detection e k d s = Inr d3 \<and>
         fst (update_gps e k (dict_get d ''mac'') d s) =
           (case regen_error e (snd (update_gps e k (dict_get d ''mac'') d s)) of
              None \<Rightarrow> Returns
            | Some err \<Rightarrow> Raises err) \<and>
         tracked_pairs (snd (update_gps e k (dict_get d ''mac'') d s)) = AList.update k d3 (tracked_pairs s) \<and>
         detection_history (snd (update_gps e k (dict_get d ''mac'') d s)) = detection_history s @ [d3]"
    then obtain d3 where m: "merge_detection e k d s = Inr d3"
      and r: "fst (update_gps e k (dict_get d ''mac'') d s) =
           (case regen_error e (snd (update_gps e k (dict_get d ''mac'') d s)) of
              None \<Rightarrow> Returns
            | Some err \<Rightarrow> Raises err)"
      and t: "tracked_pairs (snd (update_gps e k (dict_get d ''mac'') d s)) = AList.update k d3 (tracked_pairs s)"
      and h: "detection_history (snd (update_gps e k (dict_get d ''mac'') d s)) = detection_history s @ [d3]"
      by blast
    have "d3 ''last_update'' = Some (PNum (time_time e))"
      using m by (rule merge_detection_last_update)
    then show ?thesis
      using r t h by (simp add: u update_conv')
  qed
  have b: "\<exists>d'. map_of (tracked_pairs (snd (update_detection e d s))) k = Some d' \<and>
                  detection_history (snd (update_detection e d s)) = detection_history s @ [d'] \<and>
                  d' ''last_update'' = Some (PNum (time_time e))"
    if hh: "hashable (dict_get d ''basic_id'') \<and>
        (\<forall>b. live_field s k ''basic_id'' = Some b \<longrightarrow> hashable b)"
  proof -
    obtain d3 where m: "merge_detection e k d s = Inr d3"
      and h3: "hashable (dict_get d3 ''basic_id'')"
      using gps_update_returns [OF mac True] hh by blast
    have "d3 ''last_update'' = Some (PNum (time_time e))"
      using m by (rule merge_detection_last_update)
    then show ?thesis
      unfolding u using update_gps_stored(1,2) [OF mac(2) m h3] by (simp add: update_conv')
  qed
  show ?thesis
    using True a b by blast
qed

theorem last_update_overwritten_on_gps_update_only_witness:
  "det_fix ''last_update'' = Some (PNum 5) \<and> time_time env_hook = 1000 \<and>
   (\<exists>d'. map_of (tracked_pairs (snd (update_detection env_hook det_fix state_x))) (KStr ''AA'')
            = Some d' \<and>
         detection_history (snd (update_detection env_hook det_fix state_x))
            = detection_history state_x @ [d'] \<and>
         d' ''last_update'' = Some (PNum 1000)) \<and>
   map_of (tracked_pairs (snd (update_detection env_hook det_nofix state_x))) (KStr ''AA'')
     = Some det_nofix \<and>
   detection_history (snd (update_detection env_hook det_nofix state_x))
     = detection_history state_x @ [det_nofix] \<and>
   det_nofix ''last_update'' = Some (PNum 5)"
proof -
  have m1: "truthy (dict_get det_fix ''mac'')" "key_of (dict_get det_fix ''mac'') = Some (KStr ''AA'')"
    and v: "valid_drone det_fix" "hashable (dict_get det_fix ''basic_id'') \<and>
            (\<forall>b. live_field state_x (KStr ''AA'') ''basic_id'' = Some b \<longrightarrow> hashable b)"
    by (simp_all add: det_fix_def valid_drone_def hashable_def live_field_def state_x_def det_x_def
          dict_get_def dict_get_default_def)
  have m2: "truthy (dict_get det_nofix ''mac'')" "key_of (dict_get det_nofix ''mac'') = Some (KStr ''AA'')"
    and nv: "\<not> valid_drone det_nofix"
    by (simp_all add: det_nofix_def valid_drone_def dict_get_def dict_get_default_def)
  have c: "det_fix ''last_update'' = Some (PNum 5)" "time_time env_hook = 1000"
    "det_nofix ''last_update'' = Some (PNum 5)"
    by (simp_all add: det_fix_def det_nofix_def env_hook_def)
  from last_update_overwritten_on_gps_update_only [OF m1, of env_hook state_x] v
  have "\<exists>d'. map_of (tracked_pairs (snd (update_detection env_hook det_fix state_x))) (KStr ''AA'')
                  = Some d' \<and>
               detection_history (snd (update_detection env_hook det_fix state_x))
                  = detection_history state_x @ [d'] \<and>
               d' ''last_update'' = Some (PNum (time_time env_hook))"
    by blast
  then have g: "\<exists>d'. map_of (tracked_pairs (snd (update_detection env_hook det_fix state_x))) (KStr ''AA'')
                  = Some d' \<and>
               detection_history (snd (update_detection env_hook det_fix state_x))
                  = detection_history state_x @ [d'] \<and>
               d' ''last_update'' = Some (PNum 1000)"
    by (simp add: c)
  from last_update_overwritten_on_gps_update_only [OF m2, of env_hook state_x] nv
  have n: "map_of (tracked_pairs (snd (update_detection env_hook det_nofix state_x))) (KStr ''AA'')
             = Some det_nofix \<and>
           detection_history (snd (update_detection env_hook det_nofix state_x))
             = detection_history state_x @ [det_nofix]"
    by blast
  show ?thesis using c g n by blast
qed

section \<open>The cache-only lookup of registry data\<close>

text \<open>
  C7. \<^verbatim>\<open>GET /api/faa/<identifier>\<close> answers from the tracked entries and the cache alone
  (the handler is a function of the state, with no effect): it returns the first payload
  found by, in this order, the tracked entry of the mac equal to the identifier, a tracked
  entry whose \<^verbatim>\<open>basic_id\<close> equals it and that carries \<^verbatim>\<open>faa_data\<close>, a cache entry whose
  key has that remote ID, a cache entry whose key has that mac; and it answers 404 exactly
  when all four find nothing.
\<close>

theorem api_get_faa_cascade:
  "api_get_faa identifier s =
     (case live_by_mac identifier s of
        Some f \<Rightarrow> Ok200 f
      | None \<Rightarrow>
          (case live_by_remote_id identifier s of
             Some f \<Rightarrow> Ok200 f
           | None \<Rightarrow>
               (case cache_by_remote_id identifier s of
                  Some f \<Rightarrow> Ok200 f
                | None \<Rightarrow>
                    (case cache_by_mac identifier s of
                       Some f \<Rightarrow> Ok200 f
                     | None \<Rightarrow> NotFound404)))) \<and>
   (api_get_faa identifier s = NotFound404 \<longleftrightarrow>
      live_by_mac identifier s = None \<and> live_by_remote_id identifier s = None \<and>
      cache_by_remote_id identifier s = None \<and> cache_by_mac identifier s = None)"
  by (simp add: api_get_faa_def tracked_faa_live scan_tracked_by_basic_id_find
        scan_cache_by_rid_find scan_cache_by_mac_find live_by_remote_id_def
        cache_by_remote_id_def cache_by_mac_def split: option.splits)

lemma api_get_faa_examples:
  "api_get_faa ''AA'' state_x = Ok200 faa_x"
  "api_get_faa ''X'' state_x = Ok200 faa_x"
  "api_get_faa ''R2'' state_r2 = Ok200 faa_x"
  "api_get_faa ''AA'' state_r2 = Ok200 faa_x"
  "api_get_faa ''BB'' state_x = NotFound404"
  by (simp_all add: api_get_faa_def tracked_faa_def state_x_def state_r2_def det_x_def
        dict_get_def dict_get_default_def)

section \<open>Paths\<close>

text \<open>
  C9. \<^verbatim>\<open>GET /api/paths\<close> either raises TypeError (at a truthy, unhashable mac with nonzero
  coordinates, which no stored record has) or returns, for each mac, the points of its
  history entries with both drone coordinates nonzero, in history order, each run of equal
  neighbours collapsed to one point, and no entry for a mac without such points; the same
  for the pilot coordinates; and no returned path has two equal neighbours. On a history
  whose macs are all hashable it returns.
\<close>

theorem api_paths_polylines:
  "(api_paths history = Inl TypeError \<or>
    (\<exists>drone_paths pilot_paths.
       api_paths history = Inr (drone_paths, pilot_paths) \<and>
       (\<forall>k. map_of drone_paths k =
             (if history_points ''drone_lat'' ''drone_long'' k history = [] then None
              else Some (collapse_runs (history_points ''drone_lat'' ''drone_long'' k history)))) \<and>
       (\<forall>k. map_of pilot_paths k =
             (if history_points ''pilot_lat'' ''pilot_long'' k history = [] then None
              else Some (collapse_runs (history_points ''pilot_lat'' ''pilot_long'' k history)))) \<and>
       (\<forall>(k, path) \<in> set drone_paths \<union> set pilot_paths. no_equal_neighbours path))) \<and>
   ((\<forall>det \<in> set history. hashable (dict_get det ''mac'')) \<longrightarrow>
      (\<exists>paths. api_paths history = Inr paths))"
proof -
  have "\<exists>paths. api_paths history = Inr paths"
    if "\<forall>det \<in> set history. hashable (dict_get det ''mac'')"
    using paths_loop_returns [OF that, of "[]" "[]"]
    by (auto simp: api_paths_def)
  then show ?thesis using api_paths_outcomes [of history] by blast
qed

theorem api_paths_polylines_witness:
  "\<exists>drone_paths pilot_paths.
     api_paths history_x = Inr (drone_paths, pilot_paths) \<and>
     map_of drone_paths (KStr ''AA'') = Some [(PNum 10, PNum 20), (PNum 11, PNum 21)] \<and>
     map_of pilot_paths (KStr ''AA'') = Some [(PNum 1, PNum 2)] \<and>
     map_of drone_paths (KStr ''BB'') = None"
proof -
  have h: "\<forall>det \<in> set history_x. hashable (dict_get det ''mac'')"
    by (simp add: history_x_def det_x_def det_y_def det_nofix_def hashable_def dict_get_def
          dict_get_default_def)
  have d: "history_points ''drone_lat'' ''drone_long'' (KStr ''AA'') history_x
           = [(PNum 10, PNum 20), (PNum 10, PNum 20), (PNum 11, PNum 21)]"
    by (simp add: history_points_def history_x_def det_x_def det_y_def det_nofix_def
          dict_get_def dict_get_default_def)
  have p: "history_points ''pilot_lat'' ''pilot_long'' (KStr ''AA'') history_x = [(PNum 1, PNum 2)]"
    by (simp add: history_points_def history_x_def det_x_def det_y_def det_nofix_def
          dict_get_def dict_get_default_def)
  have b: "history_points ''drone_lat'' ''drone_long'' (KStr ''BB'') history_x = []"
    by (simp add: history_points_def history_x_def det_x_def det_y_def det_nofix_def
          dict_get_def dict_get_default_def)
  from api_paths_polylines [of history_x] h
  obtain drone_paths pilot_paths where r: "api_paths history_x = Inr (drone_paths, pilot_paths)"
    and dm: "\<And>k. map_of drone_paths k =
                 (if history_points ''drone_lat'' ''drone_long'' k history_x = [] then None
                  else Some (collapse_runs (history_points ''drone_lat'' ''drone_long'' k history_x)))"
    and pm: "\<And>k. map_of pilot_paths k =
                 (if history_points ''pilot_lat'' ''pilot_long'' k history_x = [] then None
                  else Some (collapse_runs (history_points ''pilot_lat'' ''pilot_long'' k history_x)))"
    by force
  have "map_of drone_paths (KStr ''AA'') = Some [(PNum 10, PNum 20), (PNum 11, PNum 21)]"
    by (simp add: dm d point_eq_def)
  moreover have "map_of pilot_paths (KStr ''AA'') = Some [(PNum 1, PNum 2)]"
    by (simp add: pm p)
  moreover have "map_of drone_paths (KStr ''BB'') = None"
    by (simp add: dm b)
  ultimately show ?thesis using r by blast
qed

text \<open>The sample history: the repeated fix appears once, the no-GPS record not at all.\<close>

lemma api_paths_example:
  "api_paths history_x =
     Inr ([(KStr ''AA'', [(PNum 10, PNum 20), (PNum 11, PNum 21)])],
          [(KStr ''AA'', [(PNum 1, PNum 2)])])"
  by (simp add: api_paths_def history_x_def det_x_def det_y_def det_nofix_def add_point_def
        dedupe_def point_eq_def dict_get_def dict_get_default_def Let_def)

end
